theory Spec2Isabelle
  imports Main "HOL-Library.Word"
begin

section \<open>Data model\<close>

text \<open>
  The string buffer of \<^verbatim>\<open>src/lib/util/sbuff.c\<close>: three pointers into one
  contiguous run of bytes. The storage is a list of bytes and a pointer is an offset
  into it, so pointer comparison is comparison of offsets and pointer difference is
  difference of offsets. \<^verbatim>\<open>size_t\<close> and \<^verbatim>\<open>ssize_t\<close> are 64 bits wide
  (LP64); unsigned arithmetic wraps, and a \<^verbatim>\<open>size_t\<close> returned as
  \<^verbatim>\<open>ssize_t\<close> is read in two's complement.
\<close>

type_synonym byte = "8 word"
type_synonym size_t = "64 word"

text \<open>
  Modelled from the spec: the type \<^verbatim>\<open>fr_sbuff_t\<close>, declared in a header that is not
  among the source files. The spec gives it the three pointers \<^verbatim>\<open>start\<close>,
  \<^verbatim>\<open>p\<close> and \<^verbatim>\<open>end\<close>; the source reads \<^verbatim>\<open>p\<close> and \<^verbatim>\<open>end\<close> and
  writes \<^verbatim>\<open>p\<close>. \<open>sb_buf\<close> is the storage the pointers point into.
\<close>

record fr_sbuff_t =
  sb_buf :: "byte list"
  sb_start :: nat
  sb_p :: nat
  sb_end :: nat

definition SIZE_MAX :: size_t where
  "SIZE_MAX = 18446744073709551615"

text \<open>The difference of two pointers, converted to \<^verbatim>\<open>size_t\<close>.\<close>

definition ptr_diff :: "nat \<Rightarrow> nat \<Rightarrow> size_t" where
  "ptr_diff a b = word_of_int (int a - int b)"

text \<open>A \<^verbatim>\<open>size_t\<close> returned from a function whose type is \<^verbatim>\<open>ssize_t\<close>.\<close>

definition to_ssize_t :: "size_t \<Rightarrow> int" where
  "to_ssize_t w = sint w"

text \<open>The bytes from a pointer onwards, and the bytes between position and end.\<close>

definition bytes_at :: "fr_sbuff_t \<Rightarrow> nat \<Rightarrow> byte list" where
  "bytes_at sbuff a = drop a (sb_buf sbuff)"

definition remaining :: "fr_sbuff_t \<Rightarrow> byte list" where
  "remaining sbuff = take (sb_end sbuff - sb_p sbuff) (bytes_at sbuff (sb_p sbuff))"

text \<open>
  The invariant of the cursor, and the cursor over valid storage: the end lies inside
  the storage, and the storage is no larger than the largest object (its size fits
  \<^verbatim>\<open>ssize_t\<close>).
\<close>

definition sbuff_inv :: "fr_sbuff_t \<Rightarrow> bool" where
  "sbuff_inv sbuff = (sb_start sbuff \<le> sb_p sbuff \<and> sb_p sbuff \<le> sb_end sbuff)"

definition sbuff_valid :: "fr_sbuff_t \<Rightarrow> bool" where
  "sbuff_valid sbuff =
     (sbuff_inv sbuff \<and> sb_end sbuff \<le> length (sb_buf sbuff) \<and>
      length (sb_buf sbuff) < 2 ^ 63)"

section \<open>The C library\<close>

text \<open>\<^verbatim>\<open>memchr(s, c, n)\<close>: the offset of the first \<^verbatim>\<open>c\<close> among the first
  \<^verbatim>\<open>n\<close> bytes at \<^verbatim>\<open>s\<close>, if there is one.\<close>

fun first_index :: "byte list \<Rightarrow> byte \<Rightarrow> nat option" where
  "first_index [] c = None"
| "first_index (x # xs) c = (if x = c then Some 0 else map_option Suc (first_index xs c))"

definition memchr :: "byte list \<Rightarrow> byte \<Rightarrow> size_t \<Rightarrow> nat option" where
  "memchr s c n = first_index (take (unat n) s) c"

text \<open>\<^verbatim>\<open>isspace\<close> in the C locale: space, and the controls from tab to carriage
  return.\<close>

definition isspace :: "byte \<Rightarrow> bool" where
  "isspace c = (c = 32 \<or> (9 \<le> c \<and> c \<le> 13))"

section \<open>Search\<close>

text \<open>
  \<^verbatim>\<open>fr_sbuff_strchr\<close> (sbuff.c, 67-78): the result is the returned
  \<^verbatim>\<open>size_t\<close> and the buffer after the call.
\<close>

definition fr_sbuff_strchr :: "fr_sbuff_t \<Rightarrow> byte \<Rightarrow> size_t \<times> fr_sbuff_t" where
  "fr_sbuff_strchr sbuff c =
     (case memchr (bytes_at sbuff (sb_p sbuff)) c (ptr_diff (sb_end sbuff) (sb_p sbuff)) of
        None \<Rightarrow> (0, sbuff)
      | Some found \<Rightarrow> (of_nat found, sbuff\<lparr>sb_p := sb_p sbuff + found\<rparr>))"

text \<open>
  \<^verbatim>\<open>fr_sbuff_strchr_utf8\<close> (sbuff.c, 46-57). The helper
  \<^verbatim>\<open>fr_utf8_strchr\<close> is not among the source files and is a parameter: it
  receives the bytes at the position, the length \<^verbatim>\<open>in->end - in->p\<close> and the
  character, and returns the offset of the match, if any.
\<close>

definition fr_sbuff_strchr_utf8 ::
  "(byte list \<Rightarrow> int \<Rightarrow> byte list \<Rightarrow> nat option) \<Rightarrow> fr_sbuff_t \<Rightarrow> byte list \<Rightarrow> size_t \<times> fr_sbuff_t" where
  "fr_sbuff_strchr_utf8 fr_utf8_strchr sbuff chr =
     (case fr_utf8_strchr (bytes_at sbuff (sb_p sbuff)) (int (sb_end sbuff) - int (sb_p sbuff)) chr of
        None \<Rightarrow> (0, sbuff)
      | Some found \<Rightarrow> (of_nat found, sbuff\<lparr>sb_p := sb_p sbuff + found\<rparr>))"

text \<open>\<^verbatim>\<open>strlen\<close>, and \<^verbatim>\<open>memmem(haystack, hlen, needle, nlen)\<close>: the offset
  of the first place in the first \<^verbatim>\<open>hlen\<close> bytes of the haystack where the first
  \<^verbatim>\<open>nlen\<close> bytes of the needle stand.\<close>

definition strlen :: "byte list \<Rightarrow> nat" where
  "strlen s = length (takeWhile (\<lambda>c. c \<noteq> 0) s)"

fun first_occurrence :: "byte list \<Rightarrow> byte list \<Rightarrow> nat option" where
  "first_occurrence h n =
     (if take (length n) h = n then Some 0
      else (case h of [] \<Rightarrow> None | _ # h' \<Rightarrow> map_option Suc (first_occurrence h' n)))"

definition memmem :: "byte list \<Rightarrow> size_t \<Rightarrow> byte list \<Rightarrow> nat \<Rightarrow> nat option" where
  "memmem h hlen n nlen = first_occurrence (take (unat hlen) h) (take nlen n)"

text \<open>\<^verbatim>\<open>fr_sbuff_strstr\<close> (sbuff.c, 89-102); \<^verbatim>\<open>len\<close> is an \<^verbatim>\<open>ssize_t\<close>.\<close>

definition fr_sbuff_strstr :: "fr_sbuff_t \<Rightarrow> byte list \<Rightarrow> int \<Rightarrow> size_t \<times> fr_sbuff_t" where
  "fr_sbuff_strstr sbuff needle len =
     (let len = (if len < 0 then int (strlen needle) else len) in
      case memmem (bytes_at sbuff (sb_p sbuff)) (ptr_diff (sb_end sbuff) (sb_p sbuff))
             needle (nat len) of
        None \<Rightarrow> (0, sbuff)
      | Some found \<Rightarrow> (of_nat found, sbuff\<lparr>sb_p := sb_p sbuff + found\<rparr>))"

text \<open>\<^verbatim>\<open>fr_sbuff_skip_whitespace\<close> (sbuff.c, 111-118): the loop, then the
  function.\<close>

function skip_whitespace_loop :: "fr_sbuff_t \<Rightarrow> fr_sbuff_t" where
  "skip_whitespace_loop sbuff =
     (if sb_p sbuff < sb_end sbuff \<and> isspace (sb_buf sbuff ! sb_p sbuff)
      then skip_whitespace_loop (sbuff\<lparr>sb_p := sb_p sbuff + 1\<rparr>)
      else sbuff)"
  by pat_completeness auto
termination
  by (relation "measure (\<lambda>sbuff. sb_end sbuff - sb_p sbuff)") auto

declare skip_whitespace_loop.simps [simp del]

definition fr_sbuff_skip_whitespace :: "fr_sbuff_t \<Rightarrow> size_t \<times> fr_sbuff_t" where
  "fr_sbuff_skip_whitespace sbuff =
     (let sbuff' = skip_whitespace_loop sbuff
      in (ptr_diff (sb_p sbuff') (sb_p sbuff), sbuff'))"

section \<open>Bulk copy\<close>

text \<open>
  The output buffer is the list of the bytes at \<^verbatim>\<open>out\<close>; each function returns
  it as it stands after the call. \<^verbatim>\<open>memcpy(dst, src, n)\<close> replaces the first
  \<^verbatim>\<open>n\<close> bytes of the destination by the first \<^verbatim>\<open>n\<close> bytes of the source.
\<close>

definition memcpy :: "byte list \<Rightarrow> byte list \<Rightarrow> size_t \<Rightarrow> byte list" where
  "memcpy dst src n = take (unat n) src @ drop (unat n) dst"

text \<open>\<^verbatim>\<open>fr_sbuff_strncpy_exact\<close> (sbuff.c, 133-149). The result is the returned
  \<^verbatim>\<open>ssize_t\<close>, the output buffer and the buffer read from.\<close>

definition fr_sbuff_strncpy_exact ::
  "byte list \<Rightarrow> size_t \<Rightarrow> fr_sbuff_t \<Rightarrow> size_t \<Rightarrow> int \<times> byte list \<times> fr_sbuff_t" where
  "fr_sbuff_strncpy_exact out outlen sbuff len =
     (let len = (if len = SIZE_MAX then ptr_diff (sb_end sbuff) (sb_p sbuff) else len) in
      if outlen = 0 then (to_ssize_t (- (len + 1)), out, sbuff)
      else
        let outlen = outlen - 1 in
        if len > outlen then (to_ssize_t (outlen - len), out, sbuff)
        else if sb_p sbuff + unat len > sb_end sbuff then (0, out, sbuff)
        else (to_ssize_t len,
              (memcpy out (bytes_at sbuff (sb_p sbuff)) len)[unat len := 0],
              sbuff\<lparr>sb_p := sb_p sbuff + unat len\<rparr>))"

text \<open>The macro \<^verbatim>\<open>STRNCPY_TRIM_LEN\<close> (sbuff.c, 151-156): the trimmed length.\<close>

definition STRNCPY_TRIM_LEN :: "size_t \<Rightarrow> fr_sbuff_t \<Rightarrow> size_t \<Rightarrow> size_t" where
  "STRNCPY_TRIM_LEN len sbuff outlen =
     (let len = (if len = SIZE_MAX then ptr_diff (sb_end sbuff) (sb_p sbuff) else len);
          len = (if len > outlen then outlen else len);
          len = (if sb_p sbuff + unat len > sb_end sbuff
                 then ptr_diff (sb_end sbuff) (sb_p sbuff) else len)
      in len)"

text \<open>\<^verbatim>\<open>fr_sbuff_strncpy\<close> (sbuff.c, 170-184).\<close>

definition fr_sbuff_strncpy ::
  "byte list \<Rightarrow> size_t \<Rightarrow> fr_sbuff_t \<Rightarrow> size_t \<Rightarrow> size_t \<times> byte list \<times> fr_sbuff_t" where
  "fr_sbuff_strncpy out outlen sbuff len =
     (if outlen = 0 then (0, out, sbuff)
      else
        let outlen = outlen - 1;
            len = STRNCPY_TRIM_LEN len sbuff outlen
        in (len,
            (memcpy out (bytes_at sbuff (sb_p sbuff)) len)[unat len := 0],
            sbuff\<lparr>sb_p := sb_p sbuff + unat len\<rparr>))"

text \<open>
  The loop of \<^verbatim>\<open>fr_sbuff_strncpy_allowed\<close> (sbuff.c, 217) over the local pointers
  \<^verbatim>\<open>p\<close> and \<^verbatim>\<open>out_p\<close>. The table of 256 \<^verbatim>\<open>char\<close>s indexed by a
  \<^verbatim>\<open>uint8_t\<close> is a function from bytes to bytes; an entry holds when it is not zero.
\<close>

function allowed_loop ::
  "(byte \<Rightarrow> byte) \<Rightarrow> byte list \<Rightarrow> nat \<Rightarrow> nat \<Rightarrow> byte list \<Rightarrow> nat \<Rightarrow> nat \<times> byte list \<times> nat" where
  "allowed_loop allowed_chars buf pend p out out_p =
     (if p < pend \<and> allowed_chars (buf ! p) \<noteq> 0
      then allowed_loop allowed_chars buf pend (p + 1) (out[out_p := buf ! p]) (out_p + 1)
      else (p, out, out_p))"
  by pat_completeness auto
termination
  by (relation "measure (\<lambda>(allowed_chars, buf, pend, p, out, out_p). pend - p)") auto

declare allowed_loop.simps [simp del]

definition fr_sbuff_strncpy_allowed ::
  "byte list \<Rightarrow> size_t \<Rightarrow> fr_sbuff_t \<Rightarrow> size_t \<Rightarrow> (byte \<Rightarrow> byte) \<Rightarrow> size_t \<times> byte list \<times> fr_sbuff_t" where
  "fr_sbuff_strncpy_allowed out outlen sbuff len allowed_chars =
     (if outlen = 0 then (0, out, sbuff)
      else
        let outlen = outlen - 1;
            len = STRNCPY_TRIM_LEN len sbuff outlen;
            pend = sb_p sbuff + unat len
        in case allowed_loop allowed_chars (sb_buf sbuff) pend (sb_p sbuff) out 0 of
             (p, out, out_p) \<Rightarrow>
               let out = out[out_p := 0];
                   copied = ptr_diff p (sb_p sbuff)
               in (copied, out, sbuff\<lparr>sb_p := sb_p sbuff + unat copied\<rparr>))"

text \<open>The loop of \<^verbatim>\<open>fr_sbuff_strncpy_until\<close> (sbuff.c, 257), and the function
  (sbuff.c, 241-264).\<close>

function until_loop ::
  "(byte \<Rightarrow> byte) \<Rightarrow> byte list \<Rightarrow> nat \<Rightarrow> nat \<Rightarrow> byte list \<Rightarrow> nat \<Rightarrow> nat \<times> byte list \<times> nat" where
  "until_loop until buf pend p out out_p =
     (if p < pend \<and> \<not> (until (buf ! p) \<noteq> 0)
      then until_loop until buf pend (p + 1) (out[out_p := buf ! p]) (out_p + 1)
      else (p, out, out_p))"
  by pat_completeness auto
termination
  by (relation "measure (\<lambda>(until, buf, pend, p, out, out_p). pend - p)") auto

declare until_loop.simps [simp del]

definition fr_sbuff_strncpy_until ::
  "byte list \<Rightarrow> size_t \<Rightarrow> fr_sbuff_t \<Rightarrow> size_t \<Rightarrow> (byte \<Rightarrow> byte) \<Rightarrow> size_t \<times> byte list \<times> fr_sbuff_t" where
  "fr_sbuff_strncpy_until out outlen sbuff len until =
     (if outlen = 0 then (0, out, sbuff)
      else
        let outlen = outlen - 1;
            len = STRNCPY_TRIM_LEN len sbuff outlen;
            pend = sb_p sbuff + unat len
        in case until_loop until (sb_buf sbuff) pend (sb_p sbuff) out 0 of
             (p, out, out_p) \<Rightarrow>
               let out = out[out_p := 0];
                   copied = ptr_diff p (sb_p sbuff)
               in (copied, out, sbuff\<lparr>sb_p := sb_p sbuff + unat copied\<rparr>))"

section \<open>Numeric parsing\<close>

text \<open>
  \<^verbatim>\<open>strtoll\<close> and \<^verbatim>\<open>strtoull\<close> of the C library in base 10 (ISO C 7.22.1.4):
  the subject sequence is optional white space, an optional sign and decimal digits.
  The result is the value, the offset of \<^verbatim>\<open>end\<close> from the start of the string and
  \<^verbatim>\<open>errno\<close> after the call. With no digits nothing is converted and
  \<^verbatim>\<open>end\<close> is the start of the string. A value out of range is replaced by the
  nearest limit and \<^verbatim>\<open>errno\<close> becomes \<^verbatim>\<open>ERANGE\<close>; otherwise
  \<^verbatim>\<open>errno\<close> is left as it was. \<^verbatim>\<open>strtoull\<close> negates in the unsigned type
  after a minus sign.
\<close>

definition LLONG_MAX :: int where "LLONG_MAX = 2 ^ 63 - 1"
definition LLONG_MIN :: int where "LLONG_MIN = - (2 ^ 63)"
definition ULLONG_MAX :: int where "ULLONG_MAX = 2 ^ 64 - 1"

definition EINVAL :: int where "EINVAL = 22"
definition ERANGE :: int where "ERANGE = 34"

definition isdigit :: "byte \<Rightarrow> bool" where
  "isdigit c = (48 \<le> c \<and> c \<le> 57)"

definition digits_value :: "byte list \<Rightarrow> int" where
  "digits_value ds = foldl (\<lambda>acc d. 10 * acc + (uint d - 48)) 0 ds"

text \<open>The string at a buffer: the bytes before the first zero byte.\<close>

definition cstring :: "byte list \<Rightarrow> byte list" where
  "cstring s = takeWhile (\<lambda>c. c \<noteq> 0) s"

text \<open>The subject sequence of a string: the offset of its first digit, whether a minus
  sign stands before it, and its digits.\<close>

definition subject :: "byte list \<Rightarrow> nat \<times> bool \<times> byte list" where
  "subject s =
     (let ws = length (takeWhile isspace s);
          s1 = drop ws s;
          sign = (case s1 of [] \<Rightarrow> 0 | c # _ \<Rightarrow> if c = 45 \<or> c = 43 then 1 else 0);
          neg = (case s1 of [] \<Rightarrow> False | c # _ \<Rightarrow> c = 45)
      in (ws + sign, neg, takeWhile isdigit (drop sign s1)))"

definition strtoll :: "byte list \<Rightarrow> int \<Rightarrow> int \<times> nat \<times> int" where
  "strtoll nptr errno =
     (case subject nptr of
        (first, neg, ds) \<Rightarrow>
          if ds = [] then (0, 0, errno)
          else
            let v = (if neg then - digits_value ds else digits_value ds);
                e = first + length ds
            in if v > LLONG_MAX then (LLONG_MAX, e, ERANGE)
               else if v < LLONG_MIN then (LLONG_MIN, e, ERANGE)
               else (v, e, errno))"

definition strtoull :: "byte list \<Rightarrow> int \<Rightarrow> int \<times> nat \<times> int" where
  "strtoull nptr errno =
     (case subject nptr of
        (first, neg, ds) \<Rightarrow>
          if ds = [] then (0, 0, errno)
          else
            let v = digits_value ds;
                e = first + length ds
            in if v > ULLONG_MAX then (ULLONG_MAX, e, ERANGE)
               else if neg then ((- v) mod 2 ^ 64, e, errno)
               else (v, e, errno))"

text \<open>
  Modelled from the spec: the parse error code, whose declaration is in a header that
  is not among the source files. The spec gives a closed enumeration of three values.
\<close>

datatype fr_sbuff_parse_error_t =
  FR_SBUFF_PARSE_ERROR_NOT_FOUND
| FR_SBUFF_PARSE_ERROR_INTEGER_OVERFLOW
| FR_SBUFF_PARSE_ERROR_INTEGER_UNDERFLOW

text \<open>
  The optional error output: \<open>None\<close> is the null pointer, \<open>Some e\<close> a pointer to
  a variable that holds \<open>e\<close>. \<^verbatim>\<open>if (err) *err = e\<close> is \<open>set_err\<close>.
\<close>

definition set_err ::
  "fr_sbuff_parse_error_t option \<Rightarrow> fr_sbuff_parse_error_t \<Rightarrow> fr_sbuff_parse_error_t option" where
  "set_err err e = (case err of None \<Rightarrow> None | Some _ \<Rightarrow> Some e)"

text \<open>
  Modelled from the spec: the macro \<^verbatim>\<open>FR_SBUFF_NO_ADVANCE\<close>, defined in a header
  that is not among the source files. The spec has the parse functions read through a
  copy of the cursor, so that the callee advances the copy and not the caller's buffer.
\<close>

definition FR_SBUFF_NO_ADVANCE :: "fr_sbuff_t \<Rightarrow> fr_sbuff_t" where
  "FR_SBUFF_NO_ADVANCE sbuff = sbuff"

text \<open>
  \<^verbatim>\<open>sizeof\<close> of a string literal counts its characters and its terminator. The
  macro \<^verbatim>\<open>STRINGIFY\<close> and the spellings of the limits (\<^verbatim>\<open>INT8_MIN\<close>, ...) are in
  headers that are not among the source files, so \<^verbatim>\<open>sizeof(STRINGIFY(_min))\<close> is a
  parameter \<open>sz\<close> of the macros and of each parse function. The examples take the
  spellings of the GNU C library, such as \<^verbatim>\<open>(-128)\<close> for \<^verbatim>\<open>INT8_MIN\<close>, whose
  size is 7.
\<close>

definition sizeof_literal :: "string \<Rightarrow> size_t" where
  "sizeof_literal s = of_nat (length s + 1)"

text \<open>
  The macro \<^verbatim>\<open>PARSE_INT_DEF\<close> (sbuff.c, 275-300), with \<^verbatim>\<open>sizeof(STRINGIFY(_min))\<close>
  as the parameter \<open>sz\<close>. The function reads \<^verbatim>\<open>errno\<close> without setting it first,
  so the value of \<^verbatim>\<open>errno\<close> on entry is an argument. \<^verbatim>\<open>num\<close> is a
  \<^verbatim>\<open>long long\<close>; the output is of the type \<^verbatim>\<open>_type\<close>, a word of its width.
  Every byte of \<^verbatim>\<open>buff\<close> that is read has been written by the copy, so its bytes
  on entry are taken as zero. The result is the returned \<^verbatim>\<open>size_t\<close>, the error
  output, the output and the buffer after the call.
\<close>

definition PARSE_INT_DEF ::
  "size_t \<Rightarrow> int \<Rightarrow> int \<Rightarrow> int \<Rightarrow> fr_sbuff_parse_error_t option \<Rightarrow> 'a::len word \<Rightarrow> fr_sbuff_t
     \<Rightarrow> size_t \<times> fr_sbuff_parse_error_t option \<times> 'a word \<times> fr_sbuff_t" where
  "PARSE_INT_DEF sz min_v max_v errno err out sbuff =
     (case fr_sbuff_strncpy (replicate (unat (sz + 1)) 0) (sz + 1) (FR_SBUFF_NO_ADVANCE sbuff) sz of
        (len, buff, _) \<Rightarrow>
          let err = (if len = 0 then set_err err FR_SBUFF_PARSE_ERROR_NOT_FOUND else err) in
          case strtoll (cstring buff) errno of
            (num, end_off, errno) \<Rightarrow>
              if end_off = 0 then (0, set_err err FR_SBUFF_PARSE_ERROR_NOT_FOUND, out, sbuff)
              else if num > max_v \<or> (errno = EINVAL \<and> num = LLONG_MAX)
              then (of_nat end_off, set_err err FR_SBUFF_PARSE_ERROR_INTEGER_OVERFLOW,
                    word_of_int max_v, sbuff)
              else if num < min_v \<or> (errno = EINVAL \<and> num = LLONG_MIN)
              then (of_nat end_off, set_err err FR_SBUFF_PARSE_ERROR_INTEGER_UNDERFLOW,
                    word_of_int min_v, sbuff)
              else (of_nat end_off, set_err err FR_SBUFF_PARSE_ERROR_NOT_FOUND,
                    word_of_int num, sbuff))"

text \<open>The four signed functions (sbuff.c, 302-305), each with its staging size
  \<^verbatim>\<open>sizeof(STRINGIFY(_min))\<close> as the parameter \<open>sz\<close>.\<close>

definition fr_sbuff_parse_int8_t ::
  "size_t \<Rightarrow> int \<Rightarrow> fr_sbuff_parse_error_t option \<Rightarrow> 8 word \<Rightarrow> fr_sbuff_t
     \<Rightarrow> size_t \<times> fr_sbuff_parse_error_t option \<times> 8 word \<times> fr_sbuff_t" where
  "fr_sbuff_parse_int8_t sz = PARSE_INT_DEF sz (- 128) 127"

definition fr_sbuff_parse_int16_t ::
  "size_t \<Rightarrow> int \<Rightarrow> fr_sbuff_parse_error_t option \<Rightarrow> 16 word \<Rightarrow> fr_sbuff_t
     \<Rightarrow> size_t \<times> fr_sbuff_parse_error_t option \<times> 16 word \<times> fr_sbuff_t" where
  "fr_sbuff_parse_int16_t sz = PARSE_INT_DEF sz (- 32768) 32767"

definition fr_sbuff_parse_int32_t ::
  "size_t \<Rightarrow> int \<Rightarrow> fr_sbuff_parse_error_t option \<Rightarrow> 32 word \<Rightarrow> fr_sbuff_t
     \<Rightarrow> size_t \<times> fr_sbuff_parse_error_t option \<times> 32 word \<times> fr_sbuff_t" where
  "fr_sbuff_parse_int32_t sz = PARSE_INT_DEF sz (- 2147483648) 2147483647"

definition fr_sbuff_parse_int64_t ::
  "size_t \<Rightarrow> int \<Rightarrow> fr_sbuff_parse_error_t option \<Rightarrow> 64 word \<Rightarrow> fr_sbuff_t
     \<Rightarrow> size_t \<times> fr_sbuff_parse_error_t option \<times> 64 word \<times> fr_sbuff_t" where
  "fr_sbuff_parse_int64_t sz = PARSE_INT_DEF sz (- 9223372036854775808) 9223372036854775807"

text \<open>The macro \<^verbatim>\<open>PARSE_UINT_DEF\<close> (sbuff.c, 312-334); \<^verbatim>\<open>num\<close> is an
  \<^verbatim>\<open>unsigned long long\<close>.\<close>

definition PARSE_UINT_DEF ::
  "size_t \<Rightarrow> int \<Rightarrow> int \<Rightarrow> fr_sbuff_parse_error_t option \<Rightarrow> 'a::len word \<Rightarrow> fr_sbuff_t
     \<Rightarrow> size_t \<times> fr_sbuff_parse_error_t option \<times> 'a word \<times> fr_sbuff_t" where
  "PARSE_UINT_DEF sz max_v errno err out sbuff =
     (case fr_sbuff_strncpy (replicate (unat (sz + 1)) 0) (sz + 1) (FR_SBUFF_NO_ADVANCE sbuff) sz of
        (len, buff, _) \<Rightarrow>
          let err = (if len = 0 then set_err err FR_SBUFF_PARSE_ERROR_NOT_FOUND else err) in
          case strtoull (cstring buff) errno of
            (num, end_off, errno) \<Rightarrow>
              if end_off = 0 then (0, set_err err FR_SBUFF_PARSE_ERROR_NOT_FOUND, out, sbuff)
              else if num > max_v \<or> (errno = EINVAL \<and> num = ULLONG_MAX)
              then (of_nat end_off, set_err err FR_SBUFF_PARSE_ERROR_INTEGER_OVERFLOW,
                    word_of_int max_v, sbuff)
              else (of_nat end_off, set_err err FR_SBUFF_PARSE_ERROR_NOT_FOUND,
                    word_of_int num, sbuff))"

text \<open>The four unsigned functions (sbuff.c, 336-339), each with its staging size
  \<^verbatim>\<open>sizeof(STRINGIFY(_max))\<close> as the parameter \<open>sz\<close>.\<close>

definition fr_sbuff_parse_uint8_t ::
  "size_t \<Rightarrow> int \<Rightarrow> fr_sbuff_parse_error_t option \<Rightarrow> 8 word \<Rightarrow> fr_sbuff_t
     \<Rightarrow> size_t \<times> fr_sbuff_parse_error_t option \<times> 8 word \<times> fr_sbuff_t" where
  "fr_sbuff_parse_uint8_t sz = PARSE_UINT_DEF sz 255"

definition fr_sbuff_parse_uint16_t ::
  "size_t \<Rightarrow> int \<Rightarrow> fr_sbuff_parse_error_t option \<Rightarrow> 16 word \<Rightarrow> fr_sbuff_t
     \<Rightarrow> size_t \<times> fr_sbuff_parse_error_t option \<times> 16 word \<times> fr_sbuff_t" where
  "fr_sbuff_parse_uint16_t sz = PARSE_UINT_DEF sz 65535"

definition fr_sbuff_parse_uint32_t ::
  "size_t \<Rightarrow> int \<Rightarrow> fr_sbuff_parse_error_t option \<Rightarrow> 32 word \<Rightarrow> fr_sbuff_t
     \<Rightarrow> size_t \<times> fr_sbuff_parse_error_t option \<times> 32 word \<times> fr_sbuff_t" where
  "fr_sbuff_parse_uint32_t sz = PARSE_UINT_DEF sz 4294967295"

definition fr_sbuff_parse_uint64_t ::
  "size_t \<Rightarrow> int \<Rightarrow> fr_sbuff_parse_error_t option \<Rightarrow> 64 word \<Rightarrow> fr_sbuff_t
     \<Rightarrow> size_t \<times> fr_sbuff_parse_error_t option \<times> 64 word \<times> fr_sbuff_t" where
  "fr_sbuff_parse_uint64_t sz = PARSE_UINT_DEF sz 18446744073709551615"

section \<open>Buffers for the examples\<close>

text \<open>The bytes of a string literal, and a buffer over a run of bytes from its first
  byte to one past its last.\<close>

definition bytes :: "string \<Rightarrow> byte list" where
  "bytes s = map of_char s"

definition sbuff_over :: "byte list \<Rightarrow> fr_sbuff_t" where
  "sbuff_over bs = \<lparr>sb_buf = bs, sb_start = 0, sb_p = 0, sb_end = length bs\<rparr>"

section \<open>Vocabulary of the statements\<close>

text \<open>The length a copy is asked for: the bytes left when \<^verbatim>\<open>len\<close> is
  \<^verbatim>\<open>SIZE_MAX\<close>, \<^verbatim>\<open>len\<close> otherwise.\<close>

definition wanted :: "fr_sbuff_t \<Rightarrow> size_t \<Rightarrow> nat" where
  "wanted sbuff len = (if len = SIZE_MAX then sb_end sbuff - sb_p sbuff else unat len)"

text \<open>The trimmed window of a copy: the first bytes after the position, as many as are
  asked for, fit the output beside the terminator, and are left in the buffer.\<close>

definition window :: "fr_sbuff_t \<Rightarrow> size_t \<Rightarrow> size_t \<Rightarrow> byte list" where
  "window sbuff outlen len = take (min (wanted sbuff len) (unat outlen - 1)) (remaining sbuff)"

text \<open>The bytes a filtered copy takes from a window: its longest prefix of bytes whose
  table entry is set, and its longest prefix of bytes whose table entry is clear.\<close>

definition allowed_prefix :: "(byte \<Rightarrow> byte) \<Rightarrow> byte list \<Rightarrow> byte list" where
  "allowed_prefix allowed_chars w = takeWhile (\<lambda>c. allowed_chars c \<noteq> 0) w"

definition until_prefix :: "(byte \<Rightarrow> byte) \<Rightarrow> byte list \<Rightarrow> byte list" where
  "until_prefix until w = takeWhile (\<lambda>c. \<not> (until c \<noteq> 0)) w"

text \<open>What a call keeps of the buffer it was given: the invariant holds after the call,
  and the bounds and the storage are the same.\<close>

definition cursor_kept :: "fr_sbuff_t \<Rightarrow> fr_sbuff_t \<Rightarrow> bool" where
  "cursor_kept sbuff sbuff' =
     (sbuff_inv sbuff' \<and> sb_start sbuff' = sb_start sbuff \<and> sb_end sbuff' = sb_end sbuff \<and>
      sb_buf sbuff' = sb_buf sbuff)"

text \<open>The string that a parse function hands to the C library, and the buffers in which
  it holds no number: after optional white space and an optional sign there is no digit
  among the first \<open>sz\<close> bytes before a zero byte.\<close>

definition staged :: "size_t \<Rightarrow> fr_sbuff_t \<Rightarrow> byte list" where
  "staged sz sbuff =
     cstring (fst (snd (fr_sbuff_strncpy (replicate (unat (sz + 1)) 0) (sz + 1)
                          (FR_SBUFF_NO_ADVANCE sbuff) sz)))"

definition no_number :: "size_t \<Rightarrow> fr_sbuff_t \<Rightarrow> bool" where
  "no_number sz sbuff =
     (snd (snd (subject (cstring (take (unat sz) (remaining sbuff))))) = [])"

section \<open>Pointers and sizes\<close>

lemma ptr_diff_of_nat: "b \<le> a \<Longrightarrow> ptr_diff a b = of_nat (a - b)"
  by (simp add: ptr_diff_def)

lemma unat_ptr_diff_mod: "b \<le> a \<Longrightarrow> unat (ptr_diff a b) = (a - b) mod 2 ^ 64"
  by (simp only: ptr_diff_of_nat unat_of_nat) simp

lemma unat_ptr_diff_le: "b \<le> a \<Longrightarrow> unat (ptr_diff a b) \<le> a - b"
  by (simp only: unat_ptr_diff_mod mod_less_eq_dividend)

lemma unat_ptr_diff: "b \<le> a \<Longrightarrow> a - b < 2 ^ 64 \<Longrightarrow> unat (ptr_diff a b) = a - b"
  by (simp only: unat_ptr_diff_mod mod_less)

lemma valid_remaining_size:
  "sbuff_valid sbuff \<Longrightarrow> unat (ptr_diff (sb_end sbuff) (sb_p sbuff)) = sb_end sbuff - sb_p sbuff"
  by (rule unat_ptr_diff) (auto simp: sbuff_valid_def sbuff_inv_def)

lemma first_index_takeWhile:
  "first_index xs c =
     (if c \<in> set xs then Some (length (takeWhile (\<lambda>x. x \<noteq> c) xs)) else None)"
  by (induction xs) auto

lemma first_index_bound: "first_index xs c = Some k \<Longrightarrow> k < length xs"
  by (induction xs arbitrary: k) (auto split: if_splits)

lemma length_remaining:
  "sbuff_valid sbuff \<Longrightarrow> length (remaining sbuff) = sb_end sbuff - sb_p sbuff"
  by (auto simp: remaining_def bytes_at_def sbuff_valid_def sbuff_inv_def)

lemma remaining_nth:
  "sbuff_valid sbuff \<Longrightarrow> j < sb_end sbuff - sb_p sbuff \<Longrightarrow>
   remaining sbuff ! j = sb_buf sbuff ! (sb_p sbuff + j)"
  by (auto simp: remaining_def bytes_at_def sbuff_valid_def sbuff_inv_def)

lemma strchr_eq:
  assumes "sbuff_valid sbuff"
  shows "fr_sbuff_strchr sbuff c =
     (if c \<in> set (remaining sbuff)
      then (of_nat (length (takeWhile (\<lambda>x. x \<noteq> c) (remaining sbuff))),
            sbuff\<lparr>sb_p := sb_p sbuff + length (takeWhile (\<lambda>x. x \<noteq> c) (remaining sbuff))\<rparr>)
      else (0, sbuff))"
  using assms
  by (simp add: fr_sbuff_strchr_def memchr_def valid_remaining_size first_index_takeWhile
      remaining_def)

lemma takeWhile_neq_less:
  "c \<in> set xs \<Longrightarrow> length (takeWhile (\<lambda>x. x \<noteq> c) xs) < length xs"
  by (induction xs) auto

lemma takeWhile_neq_nth:
  "c \<in> set xs \<Longrightarrow> xs ! length (takeWhile (\<lambda>x. x \<noteq> c) xs) = c"
  by (induction xs) auto

lemma takeWhile_neq_before:
  "j < length (takeWhile (\<lambda>x. x \<noteq> c) xs) \<Longrightarrow> xs ! j \<noteq> c"
proof (induction xs arbitrary: j)
  case Nil
  then show ?case by simp
next
  case (Cons x xs)
  then show ?case by (cases j) (auto split: if_splits)
qed

lemma valid_over: "length bs < 2 ^ 63 \<Longrightarrow> sbuff_valid (sbuff_over bs)"
  by (simp add: sbuff_valid_def sbuff_inv_def sbuff_over_def)

lemma unat_sentinel:
  "sbuff_valid sbuff \<Longrightarrow>
   unat (if len = SIZE_MAX then ptr_diff (sb_end sbuff) (sb_p sbuff) else len) = wanted sbuff len"
  by (simp add: wanted_def valid_remaining_size)

lemma trim_len_nat:
  assumes "sbuff_valid sbuff"
  shows "unat (STRNCPY_TRIM_LEN len sbuff outlen) =
           min (min (wanted sbuff len) (unat outlen)) (sb_end sbuff - sb_p sbuff)"
proof -
  define l1 where "l1 = (if len = SIZE_MAX then ptr_diff (sb_end sbuff) (sb_p sbuff) else len)"
  define l2 where "l2 = (if l1 > outlen then outlen else l1)"
  have u1: "unat l1 = wanted sbuff len"
    unfolding l1_def using assms by (rule unat_sentinel)
  have u2: "unat l2 = min (wanted sbuff len) (unat outlen)"
    using u1 by (auto simp: l2_def word_less_nat_alt)
  have "STRNCPY_TRIM_LEN len sbuff outlen =
          (if sb_p sbuff + unat l2 > sb_end sbuff then ptr_diff (sb_end sbuff) (sb_p sbuff) else l2)"
    by (simp add: STRNCPY_TRIM_LEN_def l1_def l2_def Let_def)
  then show ?thesis
    using u2 valid_remaining_size[OF assms] by auto
qed

lemma trim_len_inv:
  assumes "sb_p sbuff \<le> sb_end sbuff"
  shows "sb_p sbuff + unat (STRNCPY_TRIM_LEN len sbuff outlen) \<le> sb_end sbuff"
  using unat_ptr_diff_le[OF assms] assms by (auto simp: STRNCPY_TRIM_LEN_def Let_def)

lemma take_remaining:
  "sbuff_valid sbuff \<Longrightarrow> n \<le> sb_end sbuff - sb_p sbuff \<Longrightarrow>
   take n (bytes_at sbuff (sb_p sbuff)) = take n (remaining sbuff)"
  by (simp add: remaining_def min_def)

lemma copy_terminate:
  assumes "length w = n" and "n < length out"
  shows "(w @ drop n out)[n := 0] = w @ 0 # drop (Suc n) out"
proof -
  have "(w @ drop n out)[n := 0] = w @ (drop n out)[0 := 0]"
    using assms by (simp add: list_update_append)
  moreover have "drop n out = out ! n # drop (Suc n) out"
    using assms by (simp add: Cons_nth_drop_Suc)
  ultimately show ?thesis by simp
qed

lemma memcpy_terminated:
  assumes "sbuff_valid sbuff" and "unat n \<le> sb_end sbuff - sb_p sbuff" and "unat n < length out"
  shows "(memcpy out (bytes_at sbuff (sb_p sbuff)) n)[unat n := 0] =
         take (unat n) (remaining sbuff) @ 0 # drop (Suc (unat n)) out"
proof -
  have "length (take (unat n) (remaining sbuff)) = unat n"
    using assms by (simp add: length_remaining)
  then show ?thesis
    using assms by (simp add: memcpy_def take_remaining copy_terminate)
qed

lemma strncpy_eq:
  assumes "sbuff_valid sbuff" and "outlen \<noteq> 0" and "unat outlen \<le> length out"
  shows "fr_sbuff_strncpy out outlen sbuff len =
     (let n = min (min (wanted sbuff len) (unat outlen - 1)) (sb_end sbuff - sb_p sbuff)
      in (of_nat n, take n (remaining sbuff) @ 0 # drop (Suc n) out,
          sbuff\<lparr>sb_p := sb_p sbuff + n\<rparr>))"
proof -
  define t where "t = STRNCPY_TRIM_LEN len sbuff (outlen - 1)"
  have o1: "unat (outlen - 1) = unat outlen - 1"
    using assms(2) by (simp add: unat_minus_one)
  have ut: "unat t = min (min (wanted sbuff len) (unat outlen - 1)) (sb_end sbuff - sb_p sbuff)"
    unfolding t_def using trim_len_nat[OF assms(1)] o1 by simp
  have pos: "0 < unat outlen" using assms(2) by (simp add: unat_gt_0)
  have lt: "unat t < length out" using ut assms(3) pos by simp
  have le: "unat t \<le> sb_end sbuff - sb_p sbuff" using ut by simp
  have "fr_sbuff_strncpy out outlen sbuff len =
         (t, (memcpy out (bytes_at sbuff (sb_p sbuff)) t)[unat t := 0],
          sbuff\<lparr>sb_p := sb_p sbuff + unat t\<rparr>)"
    using assms(2) by (simp add: fr_sbuff_strncpy_def t_def Let_def)
  also have "\<dots> = (of_nat (unat t), take (unat t) (remaining sbuff) @ 0 # drop (Suc (unat t)) out,
          sbuff\<lparr>sb_p := sb_p sbuff + unat t\<rparr>)"
    using memcpy_terminated[OF assms(1) le lt] by simp
  finally show ?thesis
    unfolding ut by (simp add: Let_def)
qed

section \<open>Signed results\<close>

lemma int_less_63: "n < 2 ^ 63 \<Longrightarrow> int n < 2 ^ 63"
  using of_nat_less_iff[of n "2 ^ 63", where 'a = int] by simp

lemma int_le_63: "n \<le> 2 ^ 63 \<Longrightarrow> int n \<le> 2 ^ 63"
  using of_nat_le_iff[of n "2 ^ 63", where 'a = int] by simp

lemma sint_diff_size_t:
  fixes a b :: size_t
  assumes "- (2 ^ 63) \<le> int (unat a) - int (unat b)" and "int (unat a) - int (unat b) < 2 ^ 63"
  shows "sint (a - b) = int (unat a) - int (unat b)"
proof -
  have "sint (a - b) = sint (word_of_int (uint a - uint b) :: size_t)"
    by (simp only: word_sub_wi[symmetric])
  also have "\<dots> = signed_take_bit (LENGTH(64) - 1) (uint a - uint b)"
    by (rule sint_sbintrunc')
  also have "\<dots> = signed_take_bit 63 (uint a - uint b)" by simp
  also have "\<dots> = uint a - uint b"
    using assms by (intro signed_take_bit_int_eq_self) simp_all
  finally show ?thesis by simp
qed

lemma to_ssize_t_small:
  fixes a :: size_t
  assumes "unat a < 2 ^ 63"
  shows "to_ssize_t a = int (unat a)"
proof -
  have "int (unat a) < 2 ^ 63" using assms by (rule int_less_63)
  moreover have "- (2 ^ 63) \<le> int (unat a)" by (rule order_trans[of _ 0]) simp_all
  ultimately have "sint (a - 0) = int (unat a) - int (unat (0 :: size_t))"
    by (intro sint_diff_size_t) simp_all
  then show ?thesis by (simp add: to_ssize_t_def)
qed

lemma to_ssize_t_diff:
  fixes a b :: size_t
  assumes "unat a < unat b" and "unat b - unat a \<le> 2 ^ 63"
  shows "to_ssize_t (a - b) = int (unat a) - int (unat b)"
proof -
  have "int (unat b - unat a) \<le> 2 ^ 63" using assms(2) by (rule int_le_63)
  moreover have "int (unat b - unat a) = int (unat b) - int (unat a)"
    using assms(1) by simp
  ultimately have "- (2 ^ 63) \<le> int (unat a) - int (unat b)" by linarith
  moreover have "int (unat a) - int (unat b) < 2 ^ 63"
  proof -
    have "int (unat a) < int (unat b)" using assms(1) by (simp only: of_nat_less_iff)
    then have "int (unat a) - int (unat b) < 0" by linarith
    also have "(0 :: int) < 2 ^ 63" by simp
    finally show ?thesis .
  qed
  ultimately show ?thesis
    unfolding to_ssize_t_def by (rule sint_diff_size_t)
qed


section \<open>The copy loops\<close>

lemma allowed_loop_eq:
  assumes "pend \<le> length buf" and "out_p + (pend - p) \<le> length out"
  shows "allowed_loop allowed_chars buf pend p out out_p =
     (let k = length (takeWhile (\<lambda>c. allowed_chars c \<noteq> 0) (take (pend - p) (drop p buf)))
      in (p + k, take out_p out @ take k (drop p buf) @ drop (out_p + k) out, out_p + k))"
  using assms
proof (induction allowed_chars buf pend p out out_p rule: allowed_loop.induct)
  case (1 allowed_chars buf pend p out out_p)
  show ?case
  proof (cases "p < pend \<and> allowed_chars (buf ! p) \<noteq> 0")
    case True
    then have pp: "p < pend" by simp
    then have plt: "p < length buf" using "1.prems" by simp
    have win: "take (pend - p) (drop p buf) = buf ! p # take (pend - Suc p) (drop (Suc p) buf)"
    proof -
      have "drop p buf = buf ! p # drop (Suc p) buf"
        using plt by (simp add: Cons_nth_drop_Suc)
      moreover have "pend - p = Suc (pend - Suc p)" using pp by arith
      ultimately show ?thesis by simp
    qed
    have olt: "out_p < length out" using pp "1.prems"(2) by arith
    have "out_p + 1 + (pend - (p + 1)) \<le> length out"
      using pp "1.prems"(2) by arith
    then have pre: "out_p + 1 + (pend - (p + 1)) \<le> length (out[out_p := buf ! p])"
      by (simp only: length_list_update)
    define k where "k = length (takeWhile (\<lambda>c. allowed_chars c \<noteq> 0)
                               (take (pend - Suc p) (drop (Suc p) buf)))"
    have ih: "allowed_loop allowed_chars buf pend (p + 1) (out[out_p := buf ! p]) (out_p + 1) =
               (p + 1 + k,
                take (out_p + 1) (out[out_p := buf ! p]) @ take k (drop (p + 1) buf) @
                  drop (out_p + 1 + k) (out[out_p := buf ! p]),
                out_p + 1 + k)"
      using "1.IH"[OF True "1.prems"(1) pre] by (simp add: k_def Let_def)
    have t1: "take (out_p + 1) (out[out_p := buf ! p]) = take out_p out @ [buf ! p]"
      using olt by (simp add: take_Suc_conv_app_nth)
    have t2: "drop (out_p + 1 + k) (out[out_p := buf ! p]) = drop (out_p + 1 + k) out"
      by simp
    have t3: "take (Suc k) (drop p buf) = buf ! p # take k (drop (Suc p) buf)"
      using plt by (simp add: Cons_nth_drop_Suc[symmetric])
    have step: "allowed_loop allowed_chars buf pend p out out_p =
                allowed_loop allowed_chars buf pend (p + 1) (out[out_p := buf ! p]) (out_p + 1)"
      using True by (subst allowed_loop.simps) simp
    have kk: "length (takeWhile (\<lambda>c. allowed_chars c \<noteq> 0) (take (pend - p) (drop p buf))) = Suc k"
      using True by (simp add: win k_def)
    show ?thesis
      unfolding step ih Let_def kk t1 t2 t3 by simp
  next
    case False
    have "length (takeWhile (\<lambda>c. allowed_chars c \<noteq> 0) (take (pend - p) (drop p buf))) = 0"
    proof (cases "p < pend")
      case True
      then have nz: "\<not> allowed_chars (buf ! p) \<noteq> 0" using False by simp
      have plt: "p < length buf" using True "1.prems" by simp
      have "drop p buf = buf ! p # drop (Suc p) buf"
        using plt by (simp add: Cons_nth_drop_Suc)
      moreover have "pend - p = Suc (pend - Suc p)" using True by arith
      ultimately show ?thesis using nz by simp
    next
      case False
      then show ?thesis by simp
    qed
    moreover have "allowed_loop allowed_chars buf pend p out out_p = (p, out, out_p)"
      using False by (subst allowed_loop.simps) auto
    ultimately show ?thesis by (simp add: Let_def)
  qed
qed

lemma until_loop_allowed:
  "until_loop until buf pend p out out_p =
   allowed_loop (\<lambda>c. if until c \<noteq> 0 then 0 else 1) buf pend p out out_p"
proof (induction until buf pend p out out_p rule: until_loop.induct)
  case (1 until buf pend p out out_p)
  show ?case
  proof (cases "p < pend \<and> \<not> (until (buf ! p) \<noteq> 0)")
    case True
    then show ?thesis
      using "1.IH"[OF True]
      by (subst until_loop.simps, subst allowed_loop.simps) simp
  next
    case False
    then show ?thesis
      by (subst until_loop.simps, subst allowed_loop.simps) auto
  qed
qed

lemma length_window:
  "sbuff_valid sbuff \<Longrightarrow>
   length (window sbuff outlen len) =
     min (min (wanted sbuff len) (unat outlen - 1)) (sb_end sbuff - sb_p sbuff)"
  by (simp add: window_def length_remaining)

lemma window_drop:
  assumes "sbuff_valid sbuff"
  shows "window sbuff outlen len =
         take (min (min (wanted sbuff len) (unat outlen - 1)) (sb_end sbuff - sb_p sbuff))
           (drop (sb_p sbuff) (sb_buf sbuff))"
  by (simp add: window_def remaining_def bytes_at_def min.commute min.left_commute)

lemma unat_of_nat_size: "n < 2 ^ 63 \<Longrightarrow> unat (of_nat n :: size_t) = n"
proof -
  assume "n < 2 ^ 63"
  also have "(2 ^ 63 :: nat) < 2 ^ 64" by simp
  finally show ?thesis by (simp add: unat_of_nat)
qed

lemma valid_span: "sbuff_valid sbuff \<Longrightarrow> sb_end sbuff - sb_p sbuff < 2 ^ 63"
  by (auto simp: sbuff_valid_def)

lemma strncpy_allowed_eq:
  assumes "sbuff_valid sbuff" and "outlen \<noteq> 0" and "unat outlen \<le> length out"
  shows "fr_sbuff_strncpy_allowed out outlen sbuff len allowed_chars =
     (let copied = takeWhile (\<lambda>c. allowed_chars c \<noteq> 0) (window sbuff outlen len)
      in (of_nat (length copied), copied @ 0 # drop (Suc (length copied)) out,
          sbuff\<lparr>sb_p := sb_p sbuff + length copied\<rparr>))"
proof -
  define t where "t = STRNCPY_TRIM_LEN len sbuff (outlen - 1)"
  define n where "n = min (min (wanted sbuff len) (unat outlen - 1)) (sb_end sbuff - sb_p sbuff)"
  define w where "w = take n (drop (sb_p sbuff) (sb_buf sbuff))"
  define k where "k = length (takeWhile (\<lambda>c. allowed_chars c \<noteq> 0) w)"
  have o1: "unat (outlen - 1) = unat outlen - 1"
    using assms(2) by (simp add: unat_minus_one)
  have ut: "unat t = n"
    unfolding t_def n_def using trim_len_nat[OF assms(1)] o1 by simp
  have pos: "0 < unat outlen" using assms(2) by (simp add: unat_gt_0)
  have nlt: "n < length out" using assms(3) pos by (simp add: n_def)
  have inv: "sb_p sbuff \<le> sb_end sbuff" and stor: "sb_end sbuff \<le> length (sb_buf sbuff)"
    using assms(1) by (simp_all add: sbuff_valid_def sbuff_inv_def)
  have nle: "n \<le> sb_end sbuff - sb_p sbuff" by (simp add: n_def)
  have pend: "sb_p sbuff + n \<le> length (sb_buf sbuff)" using nle inv stor by arith
  have room: "0 + (sb_p sbuff + n - sb_p sbuff) \<le> length out" using nlt by simp
  have lw: "length w = n" using pend by (simp add: w_def)
  have kle: "k \<le> n" unfolding k_def using length_takeWhile_le[of _ w] lw by simp
  have ww: "window sbuff outlen len = w"
    unfolding w_def n_def using assms(1) by (rule window_drop)
  have tk: "take k (drop (sb_p sbuff) (sb_buf sbuff)) = takeWhile (\<lambda>c. allowed_chars c \<noteq> 0) w"
  proof -
    have "take k (drop (sb_p sbuff) (sb_buf sbuff)) = take k w"
      using kle by (simp add: w_def min_def)
    also have "\<dots> = takeWhile (\<lambda>c. allowed_chars c \<noteq> 0) w"
      unfolding k_def by (rule takeWhile_eq_take[symmetric])
    finally show ?thesis .
  qed
  have loop: "allowed_loop allowed_chars (sb_buf sbuff) (sb_p sbuff + n) (sb_p sbuff) out 0 =
          (sb_p sbuff + k, take k (drop (sb_p sbuff) (sb_buf sbuff)) @ drop k out, k)"
    using allowed_loop_eq[OF pend room, of allowed_chars]
    by (simp add: Let_def k_def w_def)
  have klt: "k < length out" using kle nlt by simp
  have lk: "length (takeWhile (\<lambda>c. allowed_chars c \<noteq> 0) w) = k" by (simp add: k_def)
  have fin: "(takeWhile (\<lambda>c. allowed_chars c \<noteq> 0) w @ drop k out)[k := 0] =
              takeWhile (\<lambda>c. allowed_chars c \<noteq> 0) w @ 0 # drop (Suc k) out"
    using lk klt by (rule copy_terminate)
  have "k < 2 ^ 63" using kle nle valid_span[OF assms(1)] by simp
  then have uk: "unat (of_nat k :: size_t) = k" by (rule unat_of_nat_size)
  have pd: "ptr_diff (sb_p sbuff + k) (sb_p sbuff) = of_nat k"
    by (simp add: ptr_diff_def)
  have "fr_sbuff_strncpy_allowed out outlen sbuff len allowed_chars =
          (of_nat k, takeWhile (\<lambda>c. allowed_chars c \<noteq> 0) w @ 0 # drop (Suc k) out,
           sbuff\<lparr>sb_p := sb_p sbuff + k\<rparr>)"
    using assms(2)
    by (simp add: fr_sbuff_strncpy_allowed_def t_def[symmetric] ut Let_def loop tk fin pd uk)
  then show ?thesis
    by (simp add: ww Let_def lk)
qed

lemma strncpy_until_allowed:
  "fr_sbuff_strncpy_until out outlen sbuff len until =
   fr_sbuff_strncpy_allowed out outlen sbuff len (\<lambda>c. if until c \<noteq> 0 then 0 else 1)"
  unfolding fr_sbuff_strncpy_until_def fr_sbuff_strncpy_allowed_def until_loop_allowed
  by (rule refl)

lemma strncpy_until_eq:
  assumes "sbuff_valid sbuff" and "outlen \<noteq> 0" and "unat outlen \<le> length out"
  shows "fr_sbuff_strncpy_until out outlen sbuff len until =
     (let copied = takeWhile (\<lambda>c. \<not> (until c \<noteq> 0)) (window sbuff outlen len)
      in (of_nat (length copied), copied @ 0 # drop (Suc (length copied)) out,
          sbuff\<lparr>sb_p := sb_p sbuff + length copied\<rparr>))"
proof -
  have "(\<lambda>c. (if until c \<noteq> 0 then 0 else (1 :: byte)) \<noteq> 0) = (\<lambda>c. \<not> (until c \<noteq> 0))"
    by auto
  then show ?thesis
    using strncpy_allowed_eq[OF assms, of len "\<lambda>c. if until c \<noteq> 0 then 0 else 1"]
    by (simp add: strncpy_until_allowed)
qed

section \<open>What the calls keep\<close>

lemma cursor_kept_refl: "sbuff_inv sbuff \<Longrightarrow> cursor_kept sbuff sbuff"
  by (simp add: cursor_kept_def)

lemma cursor_kept_advance:
  "sbuff_inv sbuff \<Longrightarrow> sb_p sbuff + k \<le> sb_end sbuff \<Longrightarrow>
   cursor_kept sbuff (sbuff\<lparr>sb_p := sb_p sbuff + k\<rparr>)"
  by (simp add: cursor_kept_def sbuff_inv_def)

lemma inv_le: "sbuff_inv sbuff \<Longrightarrow> sb_p sbuff \<le> sb_end sbuff"
  by (simp add: sbuff_inv_def)

lemma strchr_kept:
  assumes "sbuff_inv sbuff"
  shows "cursor_kept sbuff (snd (fr_sbuff_strchr sbuff c))"
proof (cases "memchr (bytes_at sbuff (sb_p sbuff)) c (ptr_diff (sb_end sbuff) (sb_p sbuff))")
  case None
  then show ?thesis using assms by (simp add: fr_sbuff_strchr_def cursor_kept_refl)
next
  case (Some k)
  then have "first_index (take (unat (ptr_diff (sb_end sbuff) (sb_p sbuff)))
                 (bytes_at sbuff (sb_p sbuff))) c = Some k"
    by (simp add: memchr_def)
  then have "k < length (take (unat (ptr_diff (sb_end sbuff) (sb_p sbuff)))
                 (bytes_at sbuff (sb_p sbuff)))"
    by (rule first_index_bound)
  then have "k < unat (ptr_diff (sb_end sbuff) (sb_p sbuff))" by simp
  then have "sb_p sbuff + k \<le> sb_end sbuff"
    using unat_ptr_diff_le[OF inv_le[OF assms]] by arith
  then show ?thesis
    using Some assms by (simp add: fr_sbuff_strchr_def cursor_kept_advance)
qed

lemma first_occurrence_bound: "first_occurrence h n = Some k \<Longrightarrow> k \<le> length h"
proof (induction h arbitrary: k)
  case Nil
  then show ?case by (simp split: if_splits)
next
  case (Cons x h)
  show ?case
  proof (cases "take (length n) (x # h) = n")
    case True
    then show ?thesis using Cons.prems by simp
  next
    case False
    then obtain j where "first_occurrence h n = Some j" "k = Suc j"
      using Cons.prems by (auto split: if_splits)
    then show ?thesis using Cons.IH by simp
  qed
qed

lemma strstr_kept:
  assumes "sbuff_inv sbuff"
  shows "cursor_kept sbuff (snd (fr_sbuff_strstr sbuff needle len))"
proof -
  define n where "n = nat (if len < 0 then int (strlen needle) else len)"
  show ?thesis
  proof (cases "memmem (bytes_at sbuff (sb_p sbuff)) (ptr_diff (sb_end sbuff) (sb_p sbuff)) needle n")
    case None
    then show ?thesis
      using assms by (simp add: fr_sbuff_strstr_def Let_def n_def cursor_kept_refl)
  next
    case (Some k)
    then have "first_occurrence (take (unat (ptr_diff (sb_end sbuff) (sb_p sbuff)))
                   (bytes_at sbuff (sb_p sbuff))) (take n needle) = Some k"
      by (simp add: memmem_def)
    then have "k \<le> length (take (unat (ptr_diff (sb_end sbuff) (sb_p sbuff)))
                   (bytes_at sbuff (sb_p sbuff)))"
      by (rule first_occurrence_bound)
    then have "k \<le> unat (ptr_diff (sb_end sbuff) (sb_p sbuff))" by simp
    then have "sb_p sbuff + k \<le> sb_end sbuff"
      using unat_ptr_diff_le[OF inv_le[OF assms]] inv_le[OF assms] by arith
    then show ?thesis
      using Some assms by (simp add: fr_sbuff_strstr_def Let_def n_def cursor_kept_advance)
  qed
qed

lemma strchr_utf8_kept:
  assumes "sbuff_inv sbuff"
    and "\<And>s n chr k. fr_utf8_strchr s n chr = Some k \<Longrightarrow> int k \<le> n"
  shows "cursor_kept sbuff (snd (fr_sbuff_strchr_utf8 fr_utf8_strchr sbuff chr))"
proof (cases "fr_utf8_strchr (bytes_at sbuff (sb_p sbuff)) (int (sb_end sbuff) - int (sb_p sbuff)) chr")
  case None
  then show ?thesis using assms(1) by (simp add: fr_sbuff_strchr_utf8_def cursor_kept_refl)
next
  case (Some k)
  then have "int k \<le> int (sb_end sbuff) - int (sb_p sbuff)" by (rule assms(2))
  then have "sb_p sbuff + k \<le> sb_end sbuff" using inv_le[OF assms(1)] by linarith
  then show ?thesis
    using Some assms(1) by (simp add: fr_sbuff_strchr_utf8_def cursor_kept_advance)
qed

lemma skip_whitespace_loop_kept:
  "sbuff_inv sbuff \<Longrightarrow> cursor_kept sbuff (skip_whitespace_loop sbuff)"
proof (induction sbuff rule: skip_whitespace_loop.induct)
  case (1 sbuff)
  show ?case
  proof (cases "sb_p sbuff < sb_end sbuff \<and> isspace (sb_buf sbuff ! sb_p sbuff)")
    case True
    then have "sbuff_inv (sbuff\<lparr>sb_p := sb_p sbuff + 1\<rparr>)"
      using "1.prems" by (simp add: sbuff_inv_def)
    then have "cursor_kept (sbuff\<lparr>sb_p := sb_p sbuff + 1\<rparr>)
                 (skip_whitespace_loop (sbuff\<lparr>sb_p := sb_p sbuff + 1\<rparr>))"
      using "1.IH"[OF True] by simp
    then show ?thesis
      using True by (subst skip_whitespace_loop.simps) (simp add: cursor_kept_def)
  next
    case False
    then show ?thesis
      using "1.prems" by (subst skip_whitespace_loop.simps) (auto simp: cursor_kept_refl)
  qed
qed

lemma skip_whitespace_kept:
  "sbuff_inv sbuff \<Longrightarrow> cursor_kept sbuff (snd (fr_sbuff_skip_whitespace sbuff))"
  by (simp add: fr_sbuff_skip_whitespace_def Let_def skip_whitespace_loop_kept)

lemma strncpy_exact_kept:
  "sbuff_inv sbuff \<Longrightarrow>
   cursor_kept sbuff (snd (snd (fr_sbuff_strncpy_exact out outlen sbuff len)))"
  by (simp add: fr_sbuff_strncpy_exact_def Let_def cursor_kept_refl cursor_kept_advance)

lemma strncpy_kept:
  "sbuff_inv sbuff \<Longrightarrow> cursor_kept sbuff (snd (snd (fr_sbuff_strncpy out outlen sbuff len)))"
  using trim_len_inv[OF inv_le, of sbuff len "outlen - 1"]
  by (simp add: fr_sbuff_strncpy_def Let_def cursor_kept_refl cursor_kept_advance)

lemma allowed_loop_range:
  "p \<le> pend \<Longrightarrow>
   p \<le> fst (allowed_loop allowed_chars buf pend p out out_p) \<and>
   fst (allowed_loop allowed_chars buf pend p out out_p) \<le> pend"
proof (induction allowed_chars buf pend p out out_p rule: allowed_loop.induct)
  case (1 allowed_chars buf pend p out out_p)
  show ?case
  proof (cases "p < pend \<and> allowed_chars (buf ! p) \<noteq> 0")
    case True
    then have "p + 1 \<le> pend" by simp
    then show ?thesis
      using "1.IH"[OF True] True by (subst (1 2) allowed_loop.simps) simp
  next
    case False
    then show ?thesis
      using "1.prems" by (subst (1 2) allowed_loop.simps) auto
  qed
qed

lemma strncpy_allowed_kept:
  assumes "sbuff_inv sbuff"
  shows "cursor_kept sbuff
           (snd (snd (fr_sbuff_strncpy_allowed out outlen sbuff len allowed_chars)))"
proof (cases "outlen = 0")
  case True
  then show ?thesis using assms by (simp add: fr_sbuff_strncpy_allowed_def cursor_kept_refl)
next
  case False
  define t where "t = STRNCPY_TRIM_LEN len sbuff (outlen - 1)"
  obtain p' out' out_p' where
    loop: "allowed_loop allowed_chars (sb_buf sbuff) (sb_p sbuff + unat t) (sb_p sbuff) out 0 =
             (p', out', out_p')"
    by (cases "allowed_loop allowed_chars (sb_buf sbuff) (sb_p sbuff + unat t) (sb_p sbuff) out 0")
  have range: "sb_p sbuff \<le> p' \<and> p' \<le> sb_p sbuff + unat t"
    using allowed_loop_range[of "sb_p sbuff" "sb_p sbuff + unat t" allowed_chars "sb_buf sbuff" out 0]
      loop by simp
  have "sb_p sbuff + unat t \<le> sb_end sbuff"
    unfolding t_def using inv_le[OF assms] by (rule trim_len_inv)
  moreover have "unat (ptr_diff p' (sb_p sbuff)) \<le> p' - sb_p sbuff"
    using range by (intro unat_ptr_diff_le) simp
  ultimately have "sb_p sbuff + unat (ptr_diff p' (sb_p sbuff)) \<le> sb_end sbuff"
    using range by arith
  then show ?thesis
    using False assms loop
    by (simp add: fr_sbuff_strncpy_allowed_def t_def[symmetric] Let_def cursor_kept_advance)
qed

lemma strncpy_until_kept:
  "sbuff_inv sbuff \<Longrightarrow>
   cursor_kept sbuff (snd (snd (fr_sbuff_strncpy_until out outlen sbuff len until)))"
  by (simp add: strncpy_until_allowed strncpy_allowed_kept)

section \<open>Staging and the C library's parsers\<close>

lemma set_err_twice [simp]: "set_err (set_err err a) b = set_err err b"
  by (cases err) (simp_all add: set_err_def)

lemma PARSE_INT_DEF_staged:
  "PARSE_INT_DEF sz min_v max_v errno err out sbuff =
     (case strtoll (staged sz sbuff) errno of
        (num, end_off, errno') \<Rightarrow>
          if end_off = 0 then (0, set_err err FR_SBUFF_PARSE_ERROR_NOT_FOUND, out, sbuff)
          else if num > max_v \<or> (errno' = EINVAL \<and> num = LLONG_MAX)
          then (of_nat end_off, set_err err FR_SBUFF_PARSE_ERROR_INTEGER_OVERFLOW,
                word_of_int max_v, sbuff)
          else if num < min_v \<or> (errno' = EINVAL \<and> num = LLONG_MIN)
          then (of_nat end_off, set_err err FR_SBUFF_PARSE_ERROR_INTEGER_UNDERFLOW,
                word_of_int min_v, sbuff)
          else (of_nat end_off, set_err err FR_SBUFF_PARSE_ERROR_NOT_FOUND,
                word_of_int num, sbuff))"
  by (simp add: PARSE_INT_DEF_def staged_def Let_def split: prod.splits)

lemma PARSE_UINT_DEF_staged:
  "PARSE_UINT_DEF sz max_v errno err out sbuff =
     (case strtoull (staged sz sbuff) errno of
        (num, end_off, errno') \<Rightarrow>
          if end_off = 0 then (0, set_err err FR_SBUFF_PARSE_ERROR_NOT_FOUND, out, sbuff)
          else if num > max_v \<or> (errno' = EINVAL \<and> num = ULLONG_MAX)
          then (of_nat end_off, set_err err FR_SBUFF_PARSE_ERROR_INTEGER_OVERFLOW,
                word_of_int max_v, sbuff)
          else (of_nat end_off, set_err err FR_SBUFF_PARSE_ERROR_NOT_FOUND,
                word_of_int num, sbuff))"
  by (simp add: PARSE_UINT_DEF_def staged_def Let_def split: prod.splits)

lemma PARSE_INT_DEF_sbuff:
  "snd (snd (snd (PARSE_INT_DEF sz min_v max_v errno err out sbuff))) = sbuff"
  by (simp add: PARSE_INT_DEF_staged split: prod.splits)

lemma PARSE_UINT_DEF_sbuff:
  "snd (snd (snd (PARSE_UINT_DEF sz max_v errno err out sbuff))) = sbuff"
  by (simp add: PARSE_UINT_DEF_staged split: prod.splits)

lemma cstring_terminated: "cstring (xs @ 0 # ys) = cstring xs"
  by (induction xs) (simp_all add: cstring_def)

lemma staged_eq:
  assumes "sbuff_valid sbuff" and "unat sz < 2 ^ 63"
  shows "staged sz sbuff = cstring (take (unat sz) (remaining sbuff))"
proof -
  have "unat sz + unat (1 :: size_t) < 2 ^ 64" using assms(2) by simp
  then have u: "unat (sz + 1) = unat sz + 1"
    using unat_add_lem[of sz 1] by simp
  then have nz: "sz + 1 \<noteq> 0" using unat_gt_0[of "sz + 1"] by simp
  have cap: "unat (sz + 1) \<le> length (replicate (unat (sz + 1)) (0 :: byte))" by simp
  have "sz \<noteq> SIZE_MAX" using assms(2) by (auto simp: SIZE_MAX_def)
  then have w: "wanted sbuff sz = unat sz" by (simp add: wanted_def)
  have v: "sbuff_valid (FR_SBUFF_NO_ADVANCE sbuff)"
    using assms(1) by (simp add: FR_SBUFF_NO_ADVANCE_def)
  have "take (min (unat sz) (sb_end sbuff - sb_p sbuff)) (remaining sbuff) =
        take (unat sz) (remaining sbuff)"
    using length_remaining[OF assms(1)] by (simp add: min_def)
  then show ?thesis
    using strncpy_eq[OF v nz cap, of sz] u w
    by (simp add: staged_def Let_def cstring_terminated FR_SBUFF_NO_ADVANCE_def)
qed

lemma strtoll_no_digits:
  "snd (snd (subject s)) = [] \<Longrightarrow> strtoll s errno = (0, 0, errno)"
  by (cases "subject s") (simp add: strtoll_def)

lemma strtoull_no_digits:
  "snd (snd (subject s)) = [] \<Longrightarrow> strtoull s errno = (0, 0, errno)"
  by (cases "subject s") (simp add: strtoull_def)

lemma PARSE_INT_DEF_not_found:
  assumes "sbuff_valid sbuff" and "unat sz < 2 ^ 63" and "no_number sz sbuff"
  shows "PARSE_INT_DEF sz min_v max_v errno err out sbuff =
           (0, set_err err FR_SBUFF_PARSE_ERROR_NOT_FOUND, out, sbuff)"
  using assms(3) strtoll_no_digits[of "staged sz sbuff" errno]
  by (simp add: PARSE_INT_DEF_staged staged_eq[OF assms(1,2)] no_number_def)

lemma PARSE_UINT_DEF_not_found:
  assumes "sbuff_valid sbuff" and "unat sz < 2 ^ 63" and "no_number sz sbuff"
  shows "PARSE_UINT_DEF sz max_v errno err out sbuff =
           (0, set_err err FR_SBUFF_PARSE_ERROR_NOT_FOUND, out, sbuff)"
  using assms(3) strtoull_no_digits[of "staged sz sbuff" errno]
  by (simp add: PARSE_UINT_DEF_staged staged_eq[OF assms(1,2)] no_number_def)

lemma sizeof_literal_small: "length s < 100 \<Longrightarrow> unat (sizeof_literal s) < 2 ^ 63"
proof -
  assume "length s < 100"
  then have "length s + 1 < 2 ^ 63" by simp
  then have "unat (of_nat (length s + 1) :: size_t) = length s + 1"
    by (rule unat_of_nat_size)
  then show ?thesis using \<open>length s + 1 < 2 ^ 63\<close> by (simp add: sizeof_literal_def)
qed

lemma remaining_over: "remaining (sbuff_over bs) = bs"
  by (simp add: remaining_def bytes_at_def sbuff_over_def)

lemma staged_over:
  "length bs < 2 ^ 63 \<Longrightarrow> unat sz < 2 ^ 63 \<Longrightarrow>
   staged sz (sbuff_over bs) = cstring (take (unat sz) bs)"
  by (simp add: staged_eq valid_over remaining_over)

section \<open>The output buffer\<close>

lemma strncpy_window:
  assumes "sbuff_valid sbuff" and "outlen \<noteq> 0" and "unat outlen \<le> length out"
  shows "fr_sbuff_strncpy out outlen sbuff len =
     (of_nat (length (window sbuff outlen len)),
      window sbuff outlen len @ 0 # drop (Suc (length (window sbuff outlen len))) out,
      sbuff\<lparr>sb_p := sb_p sbuff + length (window sbuff outlen len)\<rparr>)"
proof -
  have "take (min (min (wanted sbuff len) (unat outlen - 1)) (sb_end sbuff - sb_p sbuff))
          (remaining sbuff) = window sbuff outlen len"
    using length_remaining[OF assms(1)] by (simp add: window_def min_def)
  then show ?thesis
    using strncpy_eq[OF assms, of len] length_window[OF assms(1), of outlen len]
    by (simp add: Let_def)
qed

lemma length_window_small:
  assumes "sbuff_valid sbuff"
  shows "length (window sbuff outlen len) < 2 ^ 63"
proof -
  have "length (window sbuff outlen len) \<le> sb_end sbuff - sb_p sbuff"
    using length_window[OF assms, of outlen len] by simp
  then show ?thesis using valid_span[OF assms] by simp
qed

lemma window_nth:
  assumes "sbuff_valid sbuff" and "k < length (window sbuff outlen len)"
  shows "window sbuff outlen len ! k = sb_buf sbuff ! (sb_p sbuff + k)"
proof -
  have "k < sb_end sbuff - sb_p sbuff"
    using assms(2) length_window[OF assms(1), of outlen len] by simp
  then have "remaining sbuff ! k = sb_buf sbuff ! (sb_p sbuff + k)"
    using assms(1) by (intro remaining_nth)
  moreover have "window sbuff outlen len ! k = remaining sbuff ! k"
    using assms(2) by (simp add: window_def)
  ultimately show ?thesis by simp
qed

lemma takeWhile_small:
  assumes "sbuff_valid sbuff"
  shows "unat (of_nat (length (takeWhile P (window sbuff outlen len))) :: size_t) =
         length (takeWhile P (window sbuff outlen len))"
proof -
  have "length (takeWhile P (window sbuff outlen len)) \<le> length (window sbuff outlen len)"
    by (rule length_takeWhile_le)
  then have "length (takeWhile P (window sbuff outlen len)) < 2 ^ 63"
    using length_window_small[OF assms, of outlen len] by simp
  then show ?thesis by (rule unat_of_nat_size)
qed

lemma terminated_shape:
  assumes "k < length out" and "length w = k"
  shows "(w @ 0 # drop (Suc k) out) ! k = 0 \<and> length (w @ 0 # drop (Suc k) out) = length out"
  using assms by (auto simp: nth_append)

lemma window_fits:
  assumes "sbuff_valid sbuff" and "outlen \<noteq> 0" and "unat outlen \<le> length out"
    and "k \<le> length (window sbuff outlen len)"
  shows "k < unat outlen \<and> k < length out"
proof -
  have pos: "0 < unat outlen" using assms(2) by (simp add: unat_gt_0)
  have "length (window sbuff outlen len) \<le> unat outlen - 1"
    using length_window[OF assms(1), of outlen len] by simp
  then show ?thesis using pos assms(3,4) by arith
qed

lemma strncpy_terminated:
  assumes "sbuff_valid sbuff" and "outlen \<noteq> 0" and "unat outlen \<le> length out"
  shows "(case fr_sbuff_strncpy out outlen sbuff len of
            (n, out', sbuff') \<Rightarrow>
              unat n < unat outlen \<and> out' ! unat n = 0 \<and> length out' = length out)"
proof -
  have f: "length (window sbuff outlen len) < unat outlen \<and>
           length (window sbuff outlen len) < length out"
    using assms by (rule window_fits) (rule order_refl)
  have u: "unat (of_nat (length (window sbuff outlen len)) :: size_t) =
           length (window sbuff outlen len)"
    using length_window_small[OF assms(1)] by (rule unat_of_nat_size)
  show ?thesis
    using f terminated_shape[of "length (window sbuff outlen len)" out "window sbuff outlen len"]
    by (simp add: strncpy_window[OF assms] u)
qed

lemma strncpy_allowed_terminated:
  assumes "sbuff_valid sbuff" and "outlen \<noteq> 0" and "unat outlen \<le> length out"
  shows "(case fr_sbuff_strncpy_allowed out outlen sbuff len allowed_chars of
            (n, out', sbuff') \<Rightarrow>
              unat n < unat outlen \<and> out' ! unat n = 0 \<and> length out' = length out)"
proof -
  define a where "a = takeWhile (\<lambda>c. allowed_chars c \<noteq> 0) (window sbuff outlen len)"
  have f: "length a < unat outlen \<and> length a < length out"
    unfolding a_def using assms by (rule window_fits) (rule length_takeWhile_le)
  have u: "unat (of_nat (length a) :: size_t) = length a"
    unfolding a_def using assms(1) by (rule takeWhile_small)
  show ?thesis
    using f terminated_shape[of "length a" out a]
    by (simp add: strncpy_allowed_eq[OF assms] Let_def a_def[symmetric] u)
qed

lemma strncpy_until_terminated:
  assumes "sbuff_valid sbuff" and "outlen \<noteq> 0" and "unat outlen \<le> length out"
  shows "(case fr_sbuff_strncpy_until out outlen sbuff len until of
            (n, out', sbuff') \<Rightarrow>
              unat n < unat outlen \<and> out' ! unat n = 0 \<and> length out' = length out)"
  using strncpy_allowed_terminated[OF assms] by (simp add: strncpy_until_allowed)

section \<open>The exact copy, case by case\<close>

lemma strncpy_exact_steps:
  assumes "sbuff_valid sbuff"
  shows "fr_sbuff_strncpy_exact out outlen sbuff len =
     (let l = (if len = SIZE_MAX then ptr_diff (sb_end sbuff) (sb_p sbuff) else len) in
      if outlen = 0 then (to_ssize_t (- (l + 1)), out, sbuff)
      else if unat outlen - 1 < wanted sbuff len then (to_ssize_t (outlen - 1 - l), out, sbuff)
      else if sb_end sbuff - sb_p sbuff < wanted sbuff len then (0, out, sbuff)
      else (to_ssize_t l, (memcpy out (bytes_at sbuff (sb_p sbuff)) l)[unat l := 0],
            sbuff\<lparr>sb_p := sb_p sbuff + unat l\<rparr>))"
proof -
  define l where "l = (if len = SIZE_MAX then ptr_diff (sb_end sbuff) (sb_p sbuff) else len)"
  have ul: "unat l = wanted sbuff len"
    unfolding l_def using assms by (rule unat_sentinel)
  have inv: "sb_p sbuff \<le> sb_end sbuff"
    using assms by (simp add: sbuff_valid_def sbuff_inv_def)
  have o1: "unat (outlen - 1) = unat outlen - 1" if "outlen \<noteq> 0"
    using that by (simp add: unat_minus_one)
  have a: "(outlen - 1 < l) = (unat outlen - 1 < wanted sbuff len)" if "outlen \<noteq> 0"
    using o1[OF that] ul by (simp add: word_less_nat_alt)
  have b: "(sb_end sbuff < sb_p sbuff + unat l) = (sb_end sbuff - sb_p sbuff < wanted sbuff len)"
    using inv ul by auto
  show ?thesis
    using a b by (simp add: fr_sbuff_strncpy_exact_def l_def[symmetric] Let_def)
qed


lemma strncpy_exact_shortfall:
  assumes "sbuff_valid sbuff" and "outlen \<noteq> 0" and "unat outlen - 1 < wanted sbuff len"
    and "wanted sbuff len - (unat outlen - 1) \<le> 2 ^ 63"
  shows "fr_sbuff_strncpy_exact out outlen sbuff len =
           (int (unat outlen - 1) - int (wanted sbuff len), out, sbuff)"
proof -
  define l where "l = (if len = SIZE_MAX then ptr_diff (sb_end sbuff) (sb_p sbuff) else len)"
  have ul: "unat l = wanted sbuff len"
    unfolding l_def using assms(1) by (rule unat_sentinel)
  have o1: "unat (outlen - 1) = unat outlen - 1"
    using assms(2) by (simp add: unat_minus_one)
  have "to_ssize_t (outlen - 1 - l) = int (unat (outlen - 1)) - int (unat l)"
    using assms(3,4) ul o1 by (intro to_ssize_t_diff) simp_all
  then show ?thesis
    using assms(2,3) ul o1
    by (simp add: strncpy_exact_steps[OF assms(1)] l_def[symmetric] Let_def)
qed


lemma strncpy_exact_success:
  assumes "sbuff_valid sbuff" and "unat outlen \<le> length out" and "outlen \<noteq> 0"
    and "wanted sbuff len \<le> unat outlen - 1"
    and "wanted sbuff len \<le> sb_end sbuff - sb_p sbuff"
  shows "fr_sbuff_strncpy_exact out outlen sbuff len =
           (int (wanted sbuff len),
            take (wanted sbuff len) (remaining sbuff) @ 0 # drop (Suc (wanted sbuff len)) out,
            sbuff\<lparr>sb_p := sb_p sbuff + wanted sbuff len\<rparr>)"
proof -
  define l where "l = (if len = SIZE_MAX then ptr_diff (sb_end sbuff) (sb_p sbuff) else len)"
  have ul: "unat l = wanted sbuff len"
    unfolding l_def using assms(1) by (rule unat_sentinel)
  have "unat l < 2 ^ 63" using assms(5) valid_span[OF assms(1)] ul by simp
  then have r: "to_ssize_t l = int (unat l)" by (rule to_ssize_t_small)
  have pos: "0 < unat outlen" using assms(3) by (simp add: unat_gt_0)
  have lt: "unat l < length out" using assms(2,4) ul pos by simp
  have le: "unat l \<le> sb_end sbuff - sb_p sbuff" using assms(5) ul by simp
  show ?thesis
    using assms(3,4,5) r memcpy_terminated[OF assms(1) le lt] ul
    by (simp add: strncpy_exact_steps[OF assms(1)] l_def[symmetric] Let_def)
qed

lemma strncpy_exact_untouched:
  assumes "sbuff_valid sbuff"
    and "\<not> (outlen \<noteq> 0 \<and> wanted sbuff len \<le> unat outlen - 1 \<and>
            wanted sbuff len \<le> sb_end sbuff - sb_p sbuff)"
  shows "snd (fr_sbuff_strncpy_exact out outlen sbuff len) = (out, sbuff)"
  using assms(2) by (auto simp: strncpy_exact_steps[OF assms(1)] Let_def)

section \<open>Evaluating the examples\<close>

lemma sbuff_over_sel:
  "sb_buf (sbuff_over bs) = bs" "sb_start (sbuff_over bs) = 0"
  "sb_p (sbuff_over bs) = 0" "sb_end (sbuff_over bs) = length bs"
  by (simp_all add: sbuff_over_def)

lemmas example_eval =
  window_def wanted_def remaining_over SIZE_MAX_def sbuff_over_sel bytes_def
  allowed_prefix_def until_prefix_def

lemma valid_hello: "sbuff_valid (sbuff_over (bytes ''hello''))"
  by (simp add: valid_over bytes_def)

lemma unat_sizeof_literal: "length s < 100 \<Longrightarrow> unat (sizeof_literal s) = length s + 1"
proof -
  assume "length s < 100"
  then have "length s + 1 < 2 ^ 63" by simp
  then show ?thesis
    unfolding sizeof_literal_def by (rule unat_of_nat_size)
qed

lemma strtoll_consumed:
  "fst (snd (strtoll s errno)) = 0 \<longleftrightarrow> snd (snd (subject s)) = []"
  by (cases "subject s") (auto simp: strtoll_def Let_def)

lemma strtoull_consumed:
  "fst (snd (strtoull s errno)) = 0 \<longleftrightarrow> snd (snd (subject s)) = []"
  by (cases "subject s") (auto simp: strtoull_def Let_def)

lemma no_number_over:
  "length lit < 100 \<Longrightarrow>
   no_number (sizeof_literal lit) (sbuff_over bs) =
     (snd (snd (subject (cstring (take (length lit + 1) bs)))) = [])"
  by (simp add: no_number_def unat_sizeof_literal remaining_over)

lemmas subject_eval = no_number_over cstring_def subject_def isspace_def isdigit_def bytes_def Let_def

lemma strtoll_errno:
  "snd (snd (strtoll s errno)) = errno \<or> snd (snd (strtoll s errno)) = ERANGE"
  by (cases "subject s") (auto simp: strtoll_def Let_def)

lemma strtoull_errno:
  "snd (snd (strtoull s errno)) = errno \<or> snd (snd (strtoull s errno)) = ERANGE"
  by (cases "subject s") (auto simp: strtoull_def Let_def)

lemmas parse_eval' =
  PARSE_INT_DEF_staged PARSE_UINT_DEF_staged staged_over sizeof_literal_def
  cstring_def strtoll_def strtoull_def subject_def isspace_def isdigit_def digits_value_def
  LLONG_MAX_def LLONG_MIN_def ULLONG_MAX_def EINVAL_def ERANGE_def
  bytes_def Let_def

lemma staged_whole:
  assumes "length bs \<le> unat sz" and "unat sz < 2 ^ 63"
  shows "staged sz (sbuff_over bs) = cstring bs"
proof -
  have "length bs < 2 ^ 63" using assms by simp
  then show ?thesis using assms by (simp add: staged_over)
qed

lemmas strto_eval =
  cstring_def strtoll_def strtoull_def subject_def isspace_def isdigit_def
  digits_value_def LLONG_MAX_def LLONG_MIN_def ULLONG_MAX_def EINVAL_def ERANGE_def
  bytes_def Let_def

lemma PARSE_INT_DEF_whole:
  assumes "length bs \<le> unat sz" and "unat sz < 2 ^ 63"
  shows "PARSE_INT_DEF sz min_v max_v errno err out (sbuff_over bs) =
     (case strtoll (cstring bs) errno of
        (num, end_off, errno') \<Rightarrow>
          if end_off = 0 then (0, set_err err FR_SBUFF_PARSE_ERROR_NOT_FOUND, out, sbuff_over bs)
          else if num > max_v \<or> (errno' = EINVAL \<and> num = LLONG_MAX)
          then (of_nat end_off, set_err err FR_SBUFF_PARSE_ERROR_INTEGER_OVERFLOW,
                word_of_int max_v, sbuff_over bs)
          else if num < min_v \<or> (errno' = EINVAL \<and> num = LLONG_MIN)
          then (of_nat end_off, set_err err FR_SBUFF_PARSE_ERROR_INTEGER_UNDERFLOW,
                word_of_int min_v, sbuff_over bs)
          else (of_nat end_off, set_err err FR_SBUFF_PARSE_ERROR_NOT_FOUND,
                word_of_int num, sbuff_over bs))"
  by (simp only: PARSE_INT_DEF_staged staged_whole[OF assms])

lemma PARSE_UINT_DEF_whole:
  assumes "length bs \<le> unat sz" and "unat sz < 2 ^ 63"
  shows "PARSE_UINT_DEF sz max_v errno err out (sbuff_over bs) =
     (case strtoull (cstring bs) errno of
        (num, end_off, errno') \<Rightarrow>
          if end_off = 0 then (0, set_err err FR_SBUFF_PARSE_ERROR_NOT_FOUND, out, sbuff_over bs)
          else if num > max_v \<or> (errno' = EINVAL \<and> num = ULLONG_MAX)
          then (of_nat end_off, set_err err FR_SBUFF_PARSE_ERROR_INTEGER_OVERFLOW,
                word_of_int max_v, sbuff_over bs)
          else (of_nat end_off, set_err err FR_SBUFF_PARSE_ERROR_NOT_FOUND,
                word_of_int num, sbuff_over bs))"
  by (simp only: PARSE_UINT_DEF_staged staged_whole[OF assms])

lemma fits_twenty: "20 \<le> unat sz \<Longrightarrow> length bs \<le> 20 \<Longrightarrow> length bs \<le> unat (sz :: size_t)"
  by linarith

lemma parse_int8_examples:
  "fr_sbuff_parse_int8_t (sizeof_literal ''(-128)'') 0 err out (sbuff_over (bytes ''127'')) =
     (3, set_err err FR_SBUFF_PARSE_ERROR_NOT_FOUND, 127, sbuff_over (bytes ''127''))"
  "fr_sbuff_parse_int8_t (sizeof_literal ''(-128)'') 0 err out (sbuff_over (bytes ''200'')) =
     (3, set_err err FR_SBUFF_PARSE_ERROR_INTEGER_OVERFLOW, 127, sbuff_over (bytes ''200''))"
  "fr_sbuff_parse_int8_t (sizeof_literal ''(-128)'') 0 err out (sbuff_over (bytes ''-200'')) =
     (4, set_err err FR_SBUFF_PARSE_ERROR_INTEGER_UNDERFLOW, - 128, sbuff_over (bytes ''-200''))"
  by (simp_all add: fr_sbuff_parse_int8_t_def parse_eval')

lemma parse_uint8_blanks:
  "fr_sbuff_parse_uint8_t (sizeof_literal ''(255)'') 0 err out (sbuff_over (bytes ''    7'')) =
     (5, set_err err FR_SBUFF_PARSE_ERROR_NOT_FOUND, 7, sbuff_over (bytes ''    7''))"
  by (simp add: fr_sbuff_parse_uint8_t_def parse_eval')

lemma strtoull_minus_one:
  assumes "sbuff_valid sbuff" and "remaining sbuff = 45 # 49 # rest"
    and "rest = [] \<or> \<not> isdigit (hd rest)" and "2 \<le> unat sz" and "unat sz < 2 ^ 63"
  shows "strtoull (staged sz sbuff) errno = (18446744073709551615, 2, errno)"
proof -
  obtain n where n: "unat sz = Suc (Suc n)"
    using assms(4) by (metis Suc_le_D numeral_2_eq_2 Suc_le_mono)
  have nod: "takeWhile isdigit (cstring (take n rest)) = []"
  proof (cases "take n rest")
    case Nil
    show ?thesis unfolding Nil by (simp add: cstring_def)
  next
    case (Cons c cs)
    then have ne: "rest \<noteq> []" by auto
    then have "hd (take n rest) = hd rest" using Cons by (cases rest; cases n) auto
    then have "c = hd rest" using Cons by simp
    then have "\<not> isdigit c" using assms(3) ne by simp
    then show ?thesis unfolding Cons by (simp add: cstring_def)
  qed
  have "staged sz sbuff = 45 # 49 # cstring (take n rest)"
    using staged_eq[OF assms(1,5)] n assms(2) by (simp add: cstring_def)
  then show ?thesis
    using nod
    by (simp add: strtoull_def subject_def isspace_def isdigit_def digits_value_def
        ULLONG_MAX_def Let_def)
qed

lemma parse_uint64_minus_one:
  assumes "sbuff_valid sbuff" and "remaining sbuff = 45 # 49 # rest"
    and "rest = [] \<or> \<not> isdigit (hd rest)" and "2 \<le> unat sz" and "unat sz < 2 ^ 63"
    and "errno \<noteq> EINVAL"
  shows "fr_sbuff_parse_uint64_t sz errno err out sbuff =
           (2, set_err err FR_SBUFF_PARSE_ERROR_NOT_FOUND, 18446744073709551615, sbuff)"
  using strtoull_minus_one[OF assms(1-5), of errno] assms(6)
  by (simp add: fr_sbuff_parse_uint64_t_def PARSE_UINT_DEF_staged ULLONG_MAX_def)

lemma parse_uint64_minus_one_stale:
  assumes "sbuff_valid sbuff" and "remaining sbuff = 45 # 49 # rest"
    and "rest = [] \<or> \<not> isdigit (hd rest)" and "2 \<le> unat sz" and "unat sz < 2 ^ 63"
  shows "fr_sbuff_parse_uint64_t sz EINVAL err out sbuff =
           (2, set_err err FR_SBUFF_PARSE_ERROR_INTEGER_OVERFLOW, 18446744073709551615, sbuff)"
  using strtoull_minus_one[OF assms, of EINVAL]
  by (simp add: fr_sbuff_parse_uint64_t_def PARSE_UINT_DEF_staged ULLONG_MAX_def)

section \<open>The types narrower than the C library's\<close>

text \<open>
  For a type whose limits lie strictly inside those of \<^verbatim>\<open>long long\<close> (or below
  that of \<^verbatim>\<open>unsigned long long\<close>) the tests of \<^verbatim>\<open>errno\<close> add nothing: a
  value at the C library's limit is beyond the type's limit already. The result depends
  on the parsed value alone.
\<close>

lemma PARSE_INT_DEF_narrow:
  assumes "max_v < LLONG_MAX" and "LLONG_MIN < min_v"
    and "strtoll (staged sz sbuff) errno = (num, end_off, errno')" and "end_off \<noteq> 0"
  shows "PARSE_INT_DEF sz min_v max_v errno err out sbuff =
           (if max_v < num
            then (of_nat end_off, set_err err FR_SBUFF_PARSE_ERROR_INTEGER_OVERFLOW,
                  word_of_int max_v, sbuff)
            else if num < min_v
            then (of_nat end_off, set_err err FR_SBUFF_PARSE_ERROR_INTEGER_UNDERFLOW,
                  word_of_int min_v, sbuff)
            else (of_nat end_off, set_err err FR_SBUFF_PARSE_ERROR_NOT_FOUND,
                  word_of_int num, sbuff))"
  using assms by (auto simp: PARSE_INT_DEF_staged)

lemma PARSE_UINT_DEF_narrow:
  assumes "max_v < ULLONG_MAX"
    and "strtoull (staged sz sbuff) errno = (num, end_off, errno')" and "end_off \<noteq> 0"
  shows "PARSE_UINT_DEF sz max_v errno err out sbuff =
           (if max_v < num
            then (of_nat end_off, set_err err FR_SBUFF_PARSE_ERROR_INTEGER_OVERFLOW,
                  word_of_int max_v, sbuff)
            else (of_nat end_off, set_err err FR_SBUFF_PARSE_ERROR_NOT_FOUND,
                  word_of_int num, sbuff))"
  using assms by (auto simp: PARSE_UINT_DEF_staged)

section \<open>The claims\<close>

subsection \<open>C1: the invariant of the cursor\<close>

text \<open>
  C1. Every operation keeps the invariant. For a buffer with start, position and end in
  this order, after each of the three searches, the white space skip, the four copies
  and the eight parse functions the position still lies between start and end, and
  start, end and the storage are the same as before. The helper of the UTF-8 search is
  not among the source files; it is any function that returns a match inside the
  \<open>n\<close> bytes it is given.
\<close>

theorem cursor_invariant_preserved:
  assumes "sbuff_inv sbuff"
    and "\<And>s n chr k. fr_utf8_strchr s n chr = Some k \<Longrightarrow> int k \<le> n"
  shows "cursor_kept sbuff (snd (fr_sbuff_strchr sbuff c)) \<and>
         cursor_kept sbuff (snd (fr_sbuff_strchr_utf8 fr_utf8_strchr sbuff chr)) \<and>
         cursor_kept sbuff (snd (fr_sbuff_strstr sbuff needle nlen)) \<and>
         cursor_kept sbuff (snd (fr_sbuff_skip_whitespace sbuff)) \<and>
         cursor_kept sbuff (snd (snd (fr_sbuff_strncpy_exact out outlen sbuff len))) \<and>
         cursor_kept sbuff (snd (snd (fr_sbuff_strncpy out outlen sbuff len))) \<and>
         cursor_kept sbuff (snd (snd (fr_sbuff_strncpy_allowed out outlen sbuff len tbl))) \<and>
         cursor_kept sbuff (snd (snd (fr_sbuff_strncpy_until out outlen sbuff len tbl))) \<and>
         cursor_kept sbuff (snd (snd (snd (fr_sbuff_parse_int8_t s8 errno err o8 sbuff)))) \<and>
         cursor_kept sbuff (snd (snd (snd (fr_sbuff_parse_int16_t s16 errno err o16 sbuff)))) \<and>
         cursor_kept sbuff (snd (snd (snd (fr_sbuff_parse_int32_t s32 errno err o32 sbuff)))) \<and>
         cursor_kept sbuff (snd (snd (snd (fr_sbuff_parse_int64_t s64 errno err o64 sbuff)))) \<and>
         cursor_kept sbuff (snd (snd (snd (fr_sbuff_parse_uint8_t u8 errno err o8 sbuff)))) \<and>
         cursor_kept sbuff (snd (snd (snd (fr_sbuff_parse_uint16_t u16 errno err o16 sbuff)))) \<and>
         cursor_kept sbuff (snd (snd (snd (fr_sbuff_parse_uint32_t u32 errno err o32 sbuff)))) \<and>
         cursor_kept sbuff (snd (snd (snd (fr_sbuff_parse_uint64_t u64 errno err o64 sbuff))))"
proof -
  note kept = cursor_kept_refl[OF assms(1)]
  have search: "cursor_kept sbuff (snd (fr_sbuff_strchr sbuff c))"
      "cursor_kept sbuff (snd (fr_sbuff_strchr_utf8 fr_utf8_strchr sbuff chr))"
      "cursor_kept sbuff (snd (fr_sbuff_strstr sbuff needle nlen))"
      "cursor_kept sbuff (snd (fr_sbuff_skip_whitespace sbuff))"
    using assms(1) strchr_utf8_kept[OF assms]
    by (simp_all add: strchr_kept strstr_kept skip_whitespace_kept)
  have copy: "cursor_kept sbuff (snd (snd (fr_sbuff_strncpy_exact out outlen sbuff len)))"
      "cursor_kept sbuff (snd (snd (fr_sbuff_strncpy out outlen sbuff len)))"
      "cursor_kept sbuff (snd (snd (fr_sbuff_strncpy_allowed out outlen sbuff len tbl)))"
      "cursor_kept sbuff (snd (snd (fr_sbuff_strncpy_until out outlen sbuff len tbl)))"
    using assms(1)
    by (simp_all add: strncpy_exact_kept strncpy_kept strncpy_allowed_kept strncpy_until_kept)
  have signed: "cursor_kept sbuff (snd (snd (snd (fr_sbuff_parse_int8_t s8 errno err o8 sbuff))))"
      "cursor_kept sbuff (snd (snd (snd (fr_sbuff_parse_int16_t s16 errno err o16 sbuff))))"
      "cursor_kept sbuff (snd (snd (snd (fr_sbuff_parse_int32_t s32 errno err o32 sbuff))))"
      "cursor_kept sbuff (snd (snd (snd (fr_sbuff_parse_int64_t s64 errno err o64 sbuff))))"
    using kept
    by (simp_all only: fr_sbuff_parse_int8_t_def fr_sbuff_parse_int16_t_def
        fr_sbuff_parse_int32_t_def fr_sbuff_parse_int64_t_def PARSE_INT_DEF_sbuff)
  have unsigned: "cursor_kept sbuff (snd (snd (snd (fr_sbuff_parse_uint8_t u8 errno err o8 sbuff))))"
      "cursor_kept sbuff (snd (snd (snd (fr_sbuff_parse_uint16_t u16 errno err o16 sbuff))))"
      "cursor_kept sbuff (snd (snd (snd (fr_sbuff_parse_uint32_t u32 errno err o32 sbuff))))"
      "cursor_kept sbuff (snd (snd (snd (fr_sbuff_parse_uint64_t u64 errno err o64 sbuff))))"
    using kept
    by (simp_all only: fr_sbuff_parse_uint8_t_def fr_sbuff_parse_uint16_t_def
        fr_sbuff_parse_uint32_t_def fr_sbuff_parse_uint64_t_def PARSE_UINT_DEF_sbuff)
  show ?thesis
    using search copy signed unsigned by (intro conjI)
qed

text \<open>
  C1, at an instance: the buffer over \<^verbatim>\<open>"  42,x"\<close>, and a helper that looks for
  the first byte of the character.
\<close>

theorem cursor_invariant_preserved_witness:
  "sbuff_inv (sbuff_over (bytes ''  42,x'')) \<and>
   cursor_kept (sbuff_over (bytes ''  42,x''))
     (snd (fr_sbuff_strchr (sbuff_over (bytes ''  42,x'')) 44)) \<and>
   cursor_kept (sbuff_over (bytes ''  42,x''))
     (snd (fr_sbuff_strchr_utf8 (\<lambda>s n chr. first_index (take (nat n) s) (hd chr))
             (sbuff_over (bytes ''  42,x'')) (bytes '',''))) \<and>
   cursor_kept (sbuff_over (bytes ''  42,x''))
     (snd (fr_sbuff_strstr (sbuff_over (bytes ''  42,x'')) (bytes '',x'') (- 1))) \<and>
   cursor_kept (sbuff_over (bytes ''  42,x''))
     (snd (fr_sbuff_skip_whitespace (sbuff_over (bytes ''  42,x'')))) \<and>
   cursor_kept (sbuff_over (bytes ''  42,x''))
     (snd (snd (fr_sbuff_strncpy_exact [1, 1, 1, 1] 4 (sbuff_over (bytes ''  42,x'')) 3))) \<and>
   cursor_kept (sbuff_over (bytes ''  42,x''))
     (snd (snd (fr_sbuff_strncpy [1, 1, 1, 1] 4 (sbuff_over (bytes ''  42,x'')) 3))) \<and>
   cursor_kept (sbuff_over (bytes ''  42,x''))
     (snd (snd (fr_sbuff_strncpy_allowed [1, 1, 1, 1] 4 (sbuff_over (bytes ''  42,x'')) 3
                  (\<lambda>c. if c = 32 then 1 else 0)))) \<and>
   cursor_kept (sbuff_over (bytes ''  42,x''))
     (snd (snd (fr_sbuff_strncpy_until [1, 1, 1, 1] 4 (sbuff_over (bytes ''  42,x'')) 3
                  (\<lambda>c. if c = 32 then 1 else 0)))) \<and>
   cursor_kept (sbuff_over (bytes ''  42,x''))
     (snd (snd (snd (fr_sbuff_parse_int8_t (sizeof_literal ''(-128)'') 0 None 0 (sbuff_over (bytes ''  42,x'')))))) \<and>
   cursor_kept (sbuff_over (bytes ''  42,x''))
     (snd (snd (snd (fr_sbuff_parse_int16_t (sizeof_literal ''(-32767-1)'') 0 None 0 (sbuff_over (bytes ''  42,x'')))))) \<and>
   cursor_kept (sbuff_over (bytes ''  42,x''))
     (snd (snd (snd (fr_sbuff_parse_int32_t (sizeof_literal ''(-2147483647-1)'') 0 None 0 (sbuff_over (bytes ''  42,x'')))))) \<and>
   cursor_kept (sbuff_over (bytes ''  42,x''))
     (snd (snd (snd (fr_sbuff_parse_int64_t (sizeof_literal ''(-9223372036854775807L-1)'') 0 None 0 (sbuff_over (bytes ''  42,x'')))))) \<and>
   cursor_kept (sbuff_over (bytes ''  42,x''))
     (snd (snd (snd (fr_sbuff_parse_uint8_t (sizeof_literal ''(255)'') 0 None 0 (sbuff_over (bytes ''  42,x'')))))) \<and>
   cursor_kept (sbuff_over (bytes ''  42,x''))
     (snd (snd (snd (fr_sbuff_parse_uint16_t (sizeof_literal ''(65535)'') 0 None 0 (sbuff_over (bytes ''  42,x'')))))) \<and>
   cursor_kept (sbuff_over (bytes ''  42,x''))
     (snd (snd (snd (fr_sbuff_parse_uint32_t (sizeof_literal ''(4294967295U)'') 0 None 0 (sbuff_over (bytes ''  42,x'')))))) \<and>
   cursor_kept (sbuff_over (bytes ''  42,x''))
     (snd (snd (snd (fr_sbuff_parse_uint64_t (sizeof_literal ''(18446744073709551615UL)'') 0 None 0 (sbuff_over (bytes ''  42,x''))))))"
proof -
  have inv: "sbuff_inv (sbuff_over (bytes ''  42,x''))"
    by (simp add: sbuff_inv_def sbuff_over_def)
  have helper: "int k \<le> n" if "first_index (take (nat n) s) (hd chr) = Some k"
    for s :: "byte list" and n chr k
  proof -
    have "k < length (take (nat n) s)" using that by (rule first_index_bound)
    then have "k < nat n" by simp
    then show ?thesis by linarith
  qed
  show ?thesis
    using inv
      cursor_invariant_preserved[OF inv helper,
        where c = 44 and chr = "bytes '',''" and needle = "bytes '',x''" and nlen = "- 1"
          and out = "[1, 1, 1, 1]" and outlen = 4 and len = 3
          and tbl = "\<lambda>c. if c = 32 then 1 else 0" and errno = 0 and err = None
          and ?o8.0 = 0 and ?o16.0 = 0 and ?o32.0 = 0 and ?o64.0 = 0
          and ?s8.0 = "sizeof_literal ''(-128)''" and ?s16.0 = "sizeof_literal ''(-32767-1)''"
          and ?s32.0 = "sizeof_literal ''(-2147483647-1)''"
          and ?s64.0 = "sizeof_literal ''(-9223372036854775807L-1)''"
          and ?u8.0 = "sizeof_literal ''(255)''" and ?u16.0 = "sizeof_literal ''(65535)''"
          and ?u32.0 = "sizeof_literal ''(4294967295U)''"
          and ?u64.0 = "sizeof_literal ''(18446744073709551615UL)''"]
    by simp
qed

subsection \<open>C2: the exact copy\<close>




subsection \<open>C3: overflow and underflow\<close>

text \<open>
  C3. When the C library's parser saturates, it sets \<^verbatim>\<open>errno\<close> to
  \<^verbatim>\<open>ERANGE\<close>, and the parse functions test \<^verbatim>\<open>errno\<close> against
  \<^verbatim>\<open>EINVAL\<close>. For the 64-bit types no value of \<^verbatim>\<open>num\<close> exceeds the limit, so
  a saturated parse is taken for the limit itself: one past \<^verbatim>\<open>INT64_MAX\<close>, one
  below \<^verbatim>\<open>INT64_MIN\<close> and one past \<^verbatim>\<open>UINT64_MAX\<close> each store the limit and
  report no error, whatever \<^verbatim>\<open>errno\<close> was on entry and whatever the staging
  sizes are, as long as they hold the twenty characters. The narrower types are not
  affected, as shown above.
\<close>

theorem parse_saturation_unreported:
  assumes "20 \<le> unat sz" and "unat sz < 2 ^ 63" and "20 \<le> unat usz" and "unat usz < 2 ^ 63"
  shows "fr_sbuff_parse_int64_t sz errno err out (sbuff_over (bytes ''9223372036854775808'')) =
           (19, set_err err FR_SBUFF_PARSE_ERROR_NOT_FOUND, 9223372036854775807,
            sbuff_over (bytes ''9223372036854775808'')) \<and>
         fr_sbuff_parse_int64_t sz errno err out (sbuff_over (bytes ''-9223372036854775809'')) =
           (20, set_err err FR_SBUFF_PARSE_ERROR_NOT_FOUND, - 9223372036854775808,
            sbuff_over (bytes ''-9223372036854775809'')) \<and>
         fr_sbuff_parse_uint64_t usz errno err out (sbuff_over (bytes ''18446744073709551616'')) =
           (20, set_err err FR_SBUFF_PARSE_ERROR_NOT_FOUND, 18446744073709551615,
            sbuff_over (bytes ''18446744073709551616''))"
proof (intro conjI)
  have l: "length (bytes ''9223372036854775808'') \<le> unat sz"
    using assms(1) by (rule fits_twenty) (simp add: bytes_def)
  show "fr_sbuff_parse_int64_t sz errno err out (sbuff_over (bytes ''9223372036854775808'')) =
           (19, set_err err FR_SBUFF_PARSE_ERROR_NOT_FOUND, 9223372036854775807,
            sbuff_over (bytes ''9223372036854775808''))"
    unfolding fr_sbuff_parse_int64_t_def PARSE_INT_DEF_whole[OF l assms(2)]
    by (simp add: strto_eval)
next
  have l: "length (bytes ''-9223372036854775809'') \<le> unat sz"
    using assms(1) by (rule fits_twenty) (simp add: bytes_def)
  show "fr_sbuff_parse_int64_t sz errno err out (sbuff_over (bytes ''-9223372036854775809'')) =
           (20, set_err err FR_SBUFF_PARSE_ERROR_NOT_FOUND, - 9223372036854775808,
            sbuff_over (bytes ''-9223372036854775809''))"
    unfolding fr_sbuff_parse_int64_t_def PARSE_INT_DEF_whole[OF l assms(2)]
    by (simp add: strto_eval)
next
  have l: "length (bytes ''18446744073709551616'') \<le> unat usz"
    using assms(3) by (rule fits_twenty) (simp add: bytes_def)
  show "fr_sbuff_parse_uint64_t usz errno err out (sbuff_over (bytes ''18446744073709551616'')) =
           (20, set_err err FR_SBUFF_PARSE_ERROR_NOT_FOUND, 18446744073709551615,
            sbuff_over (bytes ''18446744073709551616''))"
    unfolding fr_sbuff_parse_uint64_t_def PARSE_UINT_DEF_whole[OF l assms(4)]
    by (simp add: strto_eval)
qed

text \<open>
  C3, at the staging sizes of the GNU C library, 26 and 25, and with \<^verbatim>\<open>errno\<close> zero
  on entry.
\<close>

theorem parse_saturation_unreported_witness:
  "20 \<le> unat (sizeof_literal ''(-9223372036854775807L-1)'') \<and>
   unat (sizeof_literal ''(-9223372036854775807L-1)'') < 2 ^ 63 \<and>
   20 \<le> unat (sizeof_literal ''(18446744073709551615UL)'') \<and>
   unat (sizeof_literal ''(18446744073709551615UL)'') < 2 ^ 63 \<and>
   fr_sbuff_parse_int64_t (sizeof_literal ''(-9223372036854775807L-1)'') 0
       (Some FR_SBUFF_PARSE_ERROR_INTEGER_UNDERFLOW) 0
       (sbuff_over (bytes ''9223372036854775808'')) =
     (19, Some FR_SBUFF_PARSE_ERROR_NOT_FOUND, 9223372036854775807,
      sbuff_over (bytes ''9223372036854775808'')) \<and>
   fr_sbuff_parse_int64_t (sizeof_literal ''(-9223372036854775807L-1)'') 0
       (Some FR_SBUFF_PARSE_ERROR_INTEGER_OVERFLOW) 0
       (sbuff_over (bytes ''-9223372036854775809'')) =
     (20, Some FR_SBUFF_PARSE_ERROR_NOT_FOUND, - 9223372036854775808,
      sbuff_over (bytes ''-9223372036854775809'')) \<and>
   fr_sbuff_parse_uint64_t (sizeof_literal ''(18446744073709551615UL)'') 0
       (Some FR_SBUFF_PARSE_ERROR_INTEGER_UNDERFLOW) 0
       (sbuff_over (bytes ''18446744073709551616'')) =
     (20, Some FR_SBUFF_PARSE_ERROR_NOT_FOUND, 18446744073709551615,
      sbuff_over (bytes ''18446744073709551616''))"
proof -
  have s: "20 \<le> unat (sizeof_literal ''(-9223372036854775807L-1)'')"
      "unat (sizeof_literal ''(-9223372036854775807L-1)'') < 2 ^ 63"
    by (simp_all add: unat_sizeof_literal)
  have u: "20 \<le> unat (sizeof_literal ''(18446744073709551615UL)'')"
      "unat (sizeof_literal ''(18446744073709551615UL)'') < 2 ^ 63"
    by (simp_all add: unat_sizeof_literal)
  have e: "set_err (Some FR_SBUFF_PARSE_ERROR_INTEGER_UNDERFLOW) FR_SBUFF_PARSE_ERROR_NOT_FOUND =
             Some FR_SBUFF_PARSE_ERROR_NOT_FOUND"
      "set_err (Some FR_SBUFF_PARSE_ERROR_INTEGER_OVERFLOW) FR_SBUFF_PARSE_ERROR_NOT_FOUND =
             Some FR_SBUFF_PARSE_ERROR_NOT_FOUND"
    by (simp_all add: set_err_def)
  note t1 = parse_saturation_unreported[OF s u, of 0 "Some FR_SBUFF_PARSE_ERROR_INTEGER_UNDERFLOW" 0,
      unfolded e]
  note t2 = parse_saturation_unreported[OF s u, of 0 "Some FR_SBUFF_PARSE_ERROR_INTEGER_OVERFLOW" 0,
      unfolded e]
  show ?thesis
    using s u t1[THEN conjunct1] t2[THEN conjunct2, THEN conjunct1] t1[THEN conjunct2, THEN conjunct2]
    by (intro conjI)
qed

subsection \<open>C4: the parse functions and the position\<close>

text \<open>
  C4. Each of the eight parse functions returns the buffer as it was given, on every
  path and for every staging size: the copy into the staging buffer advances a copy of
  the cursor, and nothing advances the caller's.
\<close>

theorem parse_keeps_cursor:
  "snd (snd (snd (fr_sbuff_parse_int8_t s8 errno err o8 sbuff))) = sbuff \<and>
   snd (snd (snd (fr_sbuff_parse_int16_t s16 errno err o16 sbuff))) = sbuff \<and>
   snd (snd (snd (fr_sbuff_parse_int32_t s32 errno err o32 sbuff))) = sbuff \<and>
   snd (snd (snd (fr_sbuff_parse_int64_t s64 errno err o64 sbuff))) = sbuff \<and>
   snd (snd (snd (fr_sbuff_parse_uint8_t u8 errno err o8 sbuff))) = sbuff \<and>
   snd (snd (snd (fr_sbuff_parse_uint16_t u16 errno err o16 sbuff))) = sbuff \<and>
   snd (snd (snd (fr_sbuff_parse_uint32_t u32 errno err o32 sbuff))) = sbuff \<and>
   snd (snd (snd (fr_sbuff_parse_uint64_t u64 errno err o64 sbuff))) = sbuff"
  by (simp only: fr_sbuff_parse_int8_t_def fr_sbuff_parse_int16_t_def
      fr_sbuff_parse_int32_t_def fr_sbuff_parse_int64_t_def
      fr_sbuff_parse_uint8_t_def fr_sbuff_parse_uint16_t_def
      fr_sbuff_parse_uint32_t_def fr_sbuff_parse_uint64_t_def
      PARSE_INT_DEF_sbuff PARSE_UINT_DEF_sbuff simp_thms)

subsection \<open>C5: the terminator\<close>

text \<open>
  C5, as the code has it. Over a buffer on valid storage and an output of at least
  \<^verbatim>\<open>outlen\<close> bytes: when \<^verbatim>\<open>outlen\<close> is not zero, the best-effort copy and the
  two filtered copies write a zero byte at the index they return, which is less than
  \<^verbatim>\<open>outlen\<close>, and the exact copy does so at the index of the length when it
  succeeds. When the exact copy fails, and in every function when \<^verbatim>\<open>outlen\<close> is
  zero, the output is not written at all.
\<close>

theorem terminator_written:
  assumes "sbuff_valid sbuff" and "unat outlen \<le> length out"
  shows "(outlen \<noteq> 0 \<longrightarrow>
            (case fr_sbuff_strncpy out outlen sbuff len of
               (n, out', sbuff') \<Rightarrow>
                 unat n < unat outlen \<and> out' ! unat n = 0 \<and> length out' = length out) \<and>
            (case fr_sbuff_strncpy_allowed out outlen sbuff len tbl of
               (n, out', sbuff') \<Rightarrow>
                 unat n < unat outlen \<and> out' ! unat n = 0 \<and> length out' = length out) \<and>
            (case fr_sbuff_strncpy_until out outlen sbuff len tbl of
               (n, out', sbuff') \<Rightarrow>
                 unat n < unat outlen \<and> out' ! unat n = 0 \<and> length out' = length out)) \<and>
         (outlen \<noteq> 0 \<and> wanted sbuff len \<le> unat outlen - 1 \<and>
          wanted sbuff len \<le> sb_end sbuff - sb_p sbuff \<longrightarrow>
            (case fr_sbuff_strncpy_exact out outlen sbuff len of
               (r, out', sbuff') \<Rightarrow>
                 r = int (wanted sbuff len) \<and> wanted sbuff len < unat outlen \<and>
                 out' ! wanted sbuff len = 0 \<and> length out' = length out)) \<and>
         (\<not> (outlen \<noteq> 0 \<and> wanted sbuff len \<le> unat outlen - 1 \<and>
              wanted sbuff len \<le> sb_end sbuff - sb_p sbuff) \<longrightarrow>
            fst (snd (fr_sbuff_strncpy_exact out outlen sbuff len)) = out) \<and>
         (outlen = 0 \<longrightarrow>
            fst (snd (fr_sbuff_strncpy out outlen sbuff len)) = out \<and>
            fst (snd (fr_sbuff_strncpy_allowed out outlen sbuff len tbl)) = out \<and>
            fst (snd (fr_sbuff_strncpy_until out outlen sbuff len tbl)) = out)"
proof (intro conjI impI)
  assume nz: "outlen \<noteq> 0"
  show "case fr_sbuff_strncpy out outlen sbuff len of
          (n, out', sbuff') \<Rightarrow>
            unat n < unat outlen \<and> out' ! unat n = 0 \<and> length out' = length out"
    using assms(1) nz assms(2) by (rule strncpy_terminated)
  show "case fr_sbuff_strncpy_allowed out outlen sbuff len tbl of
          (n, out', sbuff') \<Rightarrow>
            unat n < unat outlen \<and> out' ! unat n = 0 \<and> length out' = length out"
    using assms(1) nz assms(2) by (rule strncpy_allowed_terminated)
  show "case fr_sbuff_strncpy_until out outlen sbuff len tbl of
          (n, out', sbuff') \<Rightarrow>
            unat n < unat outlen \<and> out' ! unat n = 0 \<and> length out' = length out"
    using assms(1) nz assms(2) by (rule strncpy_until_terminated)
next
  assume ok: "outlen \<noteq> 0 \<and> wanted sbuff len \<le> unat outlen - 1 \<and>
              wanted sbuff len \<le> sb_end sbuff - sb_p sbuff"
  then have pos: "0 < unat outlen" by (simp add: unat_gt_0)
  have lt: "wanted sbuff len < length out" "wanted sbuff len < unat outlen"
    using ok pos assms(2) by auto
  have len: "length (take (wanted sbuff len) (remaining sbuff)) = wanted sbuff len"
    using ok length_remaining[OF assms(1)] by simp
  show "case fr_sbuff_strncpy_exact out outlen sbuff len of
          (r, out', sbuff') \<Rightarrow>
            r = int (wanted sbuff len) \<and> wanted sbuff len < unat outlen \<and>
            out' ! wanted sbuff len = 0 \<and> length out' = length out"
    using ok strncpy_exact_success[OF assms, of len] lt(2)
      terminated_shape[OF lt(1) len]
    by simp
next
  assume "\<not> (outlen \<noteq> 0 \<and> wanted sbuff len \<le> unat outlen - 1 \<and>
              wanted sbuff len \<le> sb_end sbuff - sb_p sbuff)"
  then show "fst (snd (fr_sbuff_strncpy_exact out outlen sbuff len)) = out"
    using strncpy_exact_untouched[OF assms(1), of outlen len out] by simp
next
  assume z: "outlen = 0"
  show "fst (snd (fr_sbuff_strncpy out outlen sbuff len)) = out"
    using z by (simp add: fr_sbuff_strncpy_def)
  show "fst (snd (fr_sbuff_strncpy_allowed out outlen sbuff len tbl)) = out"
    using z by (simp add: fr_sbuff_strncpy_allowed_def)
  show "fst (snd (fr_sbuff_strncpy_until out outlen sbuff len tbl)) = out"
    using z by (simp add: fr_sbuff_strncpy_until_def)
qed

text \<open>
  C5, at instances: the buffer over \<^verbatim>\<open>"hello"\<close> and an output of four bytes.
\<close>

theorem terminator_written_witness:
  "sbuff_valid (sbuff_over (bytes ''hello'')) \<and>
   unat (4 :: size_t) \<le> length [1, 1, 1, 1 :: byte] \<and> (4 :: size_t) \<noteq> 0 \<and>
   fr_sbuff_strncpy [1, 1, 1, 1] 4 (sbuff_over (bytes ''hello'')) 5 =
     (3, bytes ''hel'' @ [0], (sbuff_over (bytes ''hello''))\<lparr>sb_p := 3\<rparr>) \<and>
   (case fr_sbuff_strncpy [1, 1, 1, 1] 4 (sbuff_over (bytes ''hello'')) 5 of
      (n, out', sbuff') \<Rightarrow>
        unat n < unat (4 :: size_t) \<and> out' ! unat n = 0 \<and>
        length out' = length [1, 1, 1, 1 :: byte]) \<and>
   (case fr_sbuff_strncpy_allowed [1, 1, 1, 1] 4 (sbuff_over (bytes ''hello'')) 5
           (\<lambda>c. if c = 104 then 1 else 0) of
      (n, out', sbuff') \<Rightarrow>
        unat n < unat (4 :: size_t) \<and> out' ! unat n = 0 \<and>
        length out' = length [1, 1, 1, 1 :: byte]) \<and>
   (case fr_sbuff_strncpy_until [1, 1, 1, 1] 4 (sbuff_over (bytes ''hello'')) 5
           (\<lambda>c. if c = 104 then 1 else 0) of
      (n, out', sbuff') \<Rightarrow>
        unat n < unat (4 :: size_t) \<and> out' ! unat n = 0 \<and>
        length out' = length [1, 1, 1, 1 :: byte]) \<and>
   wanted (sbuff_over (bytes ''hello'')) 3 = 3 \<and>
   (case fr_sbuff_strncpy_exact [1, 1, 1, 1] 4 (sbuff_over (bytes ''hello'')) 3 of
      (r, out', sbuff') \<Rightarrow>
        r = int (wanted (sbuff_over (bytes ''hello'')) 3) \<and>
        wanted (sbuff_over (bytes ''hello'')) 3 < unat (4 :: size_t) \<and>
        out' ! wanted (sbuff_over (bytes ''hello'')) 3 = 0 \<and>
        length out' = length [1, 1, 1, 1 :: byte]) \<and>
   wanted (sbuff_over (bytes ''hello'')) 5 = 5 \<and>
   fst (snd (fr_sbuff_strncpy_exact [1, 1, 1, 1] 4 (sbuff_over (bytes ''hello'')) 5)) =
     [1, 1, 1, 1] \<and>
   fst (snd (fr_sbuff_strncpy [1, 1, 1, 1] 0 (sbuff_over (bytes ''hello'')) 5)) = [1, 1, 1, 1]"
proof -
  note v = valid_hello
  have c4: "unat (4 :: size_t) \<le> length [1, 1, 1, 1 :: byte]" by simp
  have c0: "unat (0 :: size_t) \<le> length [1, 1, 1, 1 :: byte]" by simp
  have nz: "(4 :: size_t) \<noteq> 0" by simp
  have w3: "wanted (sbuff_over (bytes ''hello'')) 3 = 3" by (simp add: example_eval)
  have w5: "wanted (sbuff_over (bytes ''hello'')) 5 = 5" by (simp add: example_eval)
  have ok3: "(4 :: size_t) \<noteq> 0 \<and> wanted (sbuff_over (bytes ''hello'')) 3 \<le> unat (4 :: size_t) - 1 \<and>
     wanted (sbuff_over (bytes ''hello'')) 3 \<le>
       sb_end (sbuff_over (bytes ''hello'')) - sb_p (sbuff_over (bytes ''hello''))"
    by (simp add: example_eval)
  have no5: "\<not> ((4 :: size_t) \<noteq> 0 \<and> wanted (sbuff_over (bytes ''hello'')) 5 \<le> unat (4 :: size_t) - 1 \<and>
     wanted (sbuff_over (bytes ''hello'')) 5 \<le>
       sb_end (sbuff_over (bytes ''hello'')) - sb_p (sbuff_over (bytes ''hello'')))"
    by (simp add: example_eval)
  note t5 = terminator_written[OF v c4, of 5 "\<lambda>c. if c = 104 then 1 else 0"]
  note t3 = terminator_written[OF v c4, of 3 "\<lambda>c. if c = 104 then 1 else 0"]
  note t0 = terminator_written[OF v c0, of 5 "\<lambda>c. if c = 104 then 1 else 0"]
  have e1: "fr_sbuff_strncpy [1, 1, 1, 1] 4 (sbuff_over (bytes ''hello'')) 5 =
     (3, bytes ''hel'' @ [0], (sbuff_over (bytes ''hello''))\<lparr>sb_p := 3\<rparr>)"
    using strncpy_window[OF v _ c4, of 5] by (simp add: example_eval)
  note abc = t5[THEN conjunct1, THEN mp, OF nz]
  note a = abc[THEN conjunct1]
  note b = abc[THEN conjunct2, THEN conjunct1]
  note c = abc[THEN conjunct2, THEN conjunct2]
  note d = t3[THEN conjunct2, THEN conjunct1, THEN mp, OF ok3]
  note e = t5[THEN conjunct2, THEN conjunct2, THEN conjunct1, THEN mp, OF no5]
  note f = t0[THEN conjunct2, THEN conjunct2, THEN conjunct2, THEN mp, OF refl, THEN conjunct1]
  show ?thesis using v c4 nz e1 a b c w3 d w5 e f by (intro conjI)
qed

text \<open>
  C5 does not hold on every return path: an exact copy of five bytes into an output of
  three returns \<open>- 3\<close> and leaves the output, which holds no zero byte, as it was.
\<close>

theorem strncpy_exact_no_terminator:
  "(case fr_sbuff_strncpy_exact [65, 65, 65] 3 (sbuff_over (bytes ''hello'')) 5 of
      (r, out', sbuff') \<Rightarrow>
        r = - 3 \<and> out' = [65, 65, 65] \<and> 0 \<notin> set out' \<and>
        sbuff' = sbuff_over (bytes ''hello''))"
  using strncpy_exact_shortfall[OF valid_hello, of 3 5 "[65, 65, 65]"]
  by (simp add: example_eval)

subsection \<open>C6: the best-effort copy\<close>

text \<open>
  C6, as the code has it. Over a buffer on valid storage and an output of at least
  \<^verbatim>\<open>outlen\<close> bytes: when \<^verbatim>\<open>outlen\<close> is not zero the function copies the
  trimmed window, whose length is the least of the length asked for, \<^verbatim>\<open>outlen\<close>
  less one and the bytes left; it terminates the copy, advances the position by that
  length and returns it. When \<^verbatim>\<open>outlen\<close> is zero it returns zero, writes nothing
  and leaves the buffer as it was.
\<close>

theorem strncpy_contract:
  assumes "sbuff_valid sbuff" and "unat outlen \<le> length out"
  shows "fr_sbuff_strncpy out outlen sbuff len =
           (if outlen = 0 then (0, out, sbuff)
            else (of_nat (length (window sbuff outlen len)),
                  window sbuff outlen len @ 0 #
                    drop (Suc (length (window sbuff outlen len))) out,
                  sbuff\<lparr>sb_p := sb_p sbuff + length (window sbuff outlen len)\<rparr>)) \<and>
         length (window sbuff outlen len) =
           min (min (wanted sbuff len) (unat outlen - 1)) (sb_end sbuff - sb_p sbuff) \<and>
         window sbuff outlen len = take (length (window sbuff outlen len)) (remaining sbuff) \<and>
         unat (of_nat (length (window sbuff outlen len)) :: size_t) =
           length (window sbuff outlen len)"
proof (intro conjI)
  show "fr_sbuff_strncpy out outlen sbuff len =
           (if outlen = 0 then (0, out, sbuff)
            else (of_nat (length (window sbuff outlen len)),
                  window sbuff outlen len @ 0 #
                    drop (Suc (length (window sbuff outlen len))) out,
                  sbuff\<lparr>sb_p := sb_p sbuff + length (window sbuff outlen len)\<rparr>))"
  proof (cases "outlen = 0")
    case True
    then show ?thesis by (simp add: fr_sbuff_strncpy_def)
  next
    case False
    then show ?thesis using strncpy_window[OF assms(1) False assms(2)] by simp
  qed
  show "length (window sbuff outlen len) =
           min (min (wanted sbuff len) (unat outlen - 1)) (sb_end sbuff - sb_p sbuff)"
    using assms(1) by (rule length_window)
  show "window sbuff outlen len = take (length (window sbuff outlen len)) (remaining sbuff)"
    by (simp add: window_def min_def)
  show "unat (of_nat (length (window sbuff outlen len)) :: size_t) =
           length (window sbuff outlen len)"
    using length_window_small[OF assms(1)] by (rule unat_of_nat_size)
qed

text \<open>
  C6, at instances: \<^verbatim>\<open>"hello"\<close> into an output of four bytes gives
  \<^verbatim>\<open>"hel"\<close>, returns 3 and advances by 3.
\<close>

theorem strncpy_contract_witness:
  "sbuff_valid (sbuff_over (bytes ''hello'')) \<and>
   unat (4 :: size_t) \<le> length [1, 1, 1, 1 :: byte] \<and>
   fr_sbuff_strncpy [1, 1, 1, 1] 4 (sbuff_over (bytes ''hello'')) 5 =
     (3, bytes ''hel'' @ [0], (sbuff_over (bytes ''hello''))\<lparr>sb_p := 3\<rparr>) \<and>
   fr_sbuff_strncpy [1, 1, 1, 1] 4 (sbuff_over (bytes ''hello'')) SIZE_MAX =
     (3, bytes ''hel'' @ [0], (sbuff_over (bytes ''hello''))\<lparr>sb_p := 3\<rparr>) \<and>
   fr_sbuff_strncpy [1, 1, 1, 1] 4 (sbuff_over (bytes ''hello'')) 2 =
     (2, bytes ''he'' @ [0, 1], (sbuff_over (bytes ''hello''))\<lparr>sb_p := 2\<rparr>)"
proof -
  note v = valid_hello
  have c4: "unat (4 :: size_t) \<le> length [1, 1, 1, 1 :: byte]" by simp
  have a: "fr_sbuff_strncpy [1, 1, 1, 1] 4 (sbuff_over (bytes ''hello'')) 5 =
     (3, bytes ''hel'' @ [0], (sbuff_over (bytes ''hello''))\<lparr>sb_p := 3\<rparr>)"
    using strncpy_contract[OF v c4, of 5] by (simp add: example_eval)
  have b: "fr_sbuff_strncpy [1, 1, 1, 1] 4 (sbuff_over (bytes ''hello'')) SIZE_MAX =
     (3, bytes ''hel'' @ [0], (sbuff_over (bytes ''hello''))\<lparr>sb_p := 3\<rparr>)"
    using strncpy_contract[OF v c4, of SIZE_MAX] by (simp add: example_eval)
  have c: "fr_sbuff_strncpy [1, 1, 1, 1] 4 (sbuff_over (bytes ''hello'')) 2 =
     (2, bytes ''he'' @ [0, 1], (sbuff_over (bytes ''hello''))\<lparr>sb_p := 2\<rparr>)"
    using strncpy_contract[OF v c4, of 2] by (simp add: example_eval)
  show ?thesis using v c4 a b c by (intro conjI)
qed

text \<open>
  C6 does not hold when \<^verbatim>\<open>outlen\<close> is zero: the function returns before it
  writes, so no terminator is written, and the zero it returns is not the least of the
  length, \<^verbatim>\<open>outlen\<close> less one and the bytes left, neither in the integers nor in
  \<^verbatim>\<open>size_t\<close>.
\<close>

theorem strncpy_zero_outlen:
  "(case fr_sbuff_strncpy [65] 0 (sbuff_over (bytes ''hello'')) 5 of
      (n, out', sbuff') \<Rightarrow>
        n = 0 \<and> out' = [65] \<and> 0 \<notin> set out' \<and> sbuff' = sbuff_over (bytes ''hello'') \<and>
        uint n \<noteq> min (min 5 (0 - 1)) 5 \<and> n \<noteq> min (min 5 (0 - 1)) 5)"
  by (simp add: fr_sbuff_strncpy_def)

subsection \<open>C7: the filtered copies\<close>

text \<open>
  C7. Over a buffer on valid storage and an output of at least \<^verbatim>\<open>outlen\<close> bytes,
  \<^verbatim>\<open>fr_sbuff_strncpy_allowed\<close> copies the longest prefix of the trimmed window whose
  bytes are all in the table, and \<^verbatim>\<open>fr_sbuff_strncpy_until\<close> the longest prefix
  whose bytes are all outside it. Each advances the position by the number of bytes
  copied and returns that number. When the copy stops before the end of the window, the
  byte that stopped it stands at the new position. With \<^verbatim>\<open>outlen\<close> zero nothing is
  copied and zero is returned.
\<close>

theorem filtered_copy_contract:
  assumes "sbuff_valid sbuff" and "unat outlen \<le> length out"
  shows "fr_sbuff_strncpy_allowed out outlen sbuff len allowed_chars =
           (if outlen = 0 then (0, out, sbuff)
            else (of_nat (length (allowed_prefix allowed_chars (window sbuff outlen len))),
                  allowed_prefix allowed_chars (window sbuff outlen len) @ 0 #
                    drop (Suc (length (allowed_prefix allowed_chars (window sbuff outlen len)))) out,
                  sbuff\<lparr>sb_p := sb_p sbuff +
                    length (allowed_prefix allowed_chars (window sbuff outlen len))\<rparr>)) \<and>
         fr_sbuff_strncpy_until out outlen sbuff len until =
           (if outlen = 0 then (0, out, sbuff)
            else (of_nat (length (until_prefix until (window sbuff outlen len))),
                  until_prefix until (window sbuff outlen len) @ 0 #
                    drop (Suc (length (until_prefix until (window sbuff outlen len)))) out,
                  sbuff\<lparr>sb_p := sb_p sbuff +
                    length (until_prefix until (window sbuff outlen len))\<rparr>)) \<and>
         unat (of_nat (length (allowed_prefix allowed_chars (window sbuff outlen len))) :: size_t) =
           length (allowed_prefix allowed_chars (window sbuff outlen len)) \<and>
         unat (of_nat (length (until_prefix until (window sbuff outlen len))) :: size_t) =
           length (until_prefix until (window sbuff outlen len)) \<and>
         (length (allowed_prefix allowed_chars (window sbuff outlen len)) <
            length (window sbuff outlen len) \<longrightarrow>
          allowed_chars (sb_buf sbuff !
            (sb_p sbuff + length (allowed_prefix allowed_chars (window sbuff outlen len)))) = 0) \<and>
         (length (until_prefix until (window sbuff outlen len)) <
            length (window sbuff outlen len) \<longrightarrow>
          until (sb_buf sbuff !
            (sb_p sbuff + length (until_prefix until (window sbuff outlen len)))) \<noteq> 0)"
proof (intro conjI impI)
  show "fr_sbuff_strncpy_allowed out outlen sbuff len allowed_chars =
           (if outlen = 0 then (0, out, sbuff)
            else (of_nat (length (allowed_prefix allowed_chars (window sbuff outlen len))),
                  allowed_prefix allowed_chars (window sbuff outlen len) @ 0 #
                    drop (Suc (length (allowed_prefix allowed_chars (window sbuff outlen len)))) out,
                  sbuff\<lparr>sb_p := sb_p sbuff +
                    length (allowed_prefix allowed_chars (window sbuff outlen len))\<rparr>))"
  proof (cases "outlen = 0")
    case True
    then show ?thesis by (simp add: fr_sbuff_strncpy_allowed_def)
  next
    case False
    then show ?thesis
      using strncpy_allowed_eq[OF assms(1) False assms(2), of len allowed_chars]
      by (simp add: Let_def allowed_prefix_def)
  qed
  show "fr_sbuff_strncpy_until out outlen sbuff len until =
           (if outlen = 0 then (0, out, sbuff)
            else (of_nat (length (until_prefix until (window sbuff outlen len))),
                  until_prefix until (window sbuff outlen len) @ 0 #
                    drop (Suc (length (until_prefix until (window sbuff outlen len)))) out,
                  sbuff\<lparr>sb_p := sb_p sbuff +
                    length (until_prefix until (window sbuff outlen len))\<rparr>))"
  proof (cases "outlen = 0")
    case True
    then show ?thesis by (simp add: fr_sbuff_strncpy_until_def)
  next
    case False
    then show ?thesis
      using strncpy_until_eq[OF assms(1) False assms(2), of len until]
      by (simp add: Let_def until_prefix_def)
  qed
  show "unat (of_nat (length (allowed_prefix allowed_chars (window sbuff outlen len))) :: size_t) =
           length (allowed_prefix allowed_chars (window sbuff outlen len))"
    unfolding allowed_prefix_def using assms(1) by (rule takeWhile_small)
  show "unat (of_nat (length (until_prefix until (window sbuff outlen len))) :: size_t) =
           length (until_prefix until (window sbuff outlen len))"
    unfolding until_prefix_def using assms(1) by (rule takeWhile_small)
next
  assume lt: "length (allowed_prefix allowed_chars (window sbuff outlen len)) <
            length (window sbuff outlen len)"
  then have "\<not> allowed_chars (window sbuff outlen len !
               length (allowed_prefix allowed_chars (window sbuff outlen len))) \<noteq> 0"
    unfolding allowed_prefix_def by (rule nth_length_takeWhile)
  then show "allowed_chars (sb_buf sbuff !
            (sb_p sbuff + length (allowed_prefix allowed_chars (window sbuff outlen len)))) = 0"
    using window_nth[OF assms(1) lt] by simp
next
  assume lt: "length (until_prefix until (window sbuff outlen len)) <
            length (window sbuff outlen len)"
  then have "\<not> \<not> (until (window sbuff outlen len !
               length (until_prefix until (window sbuff outlen len))) \<noteq> 0)"
    unfolding until_prefix_def by (rule nth_length_takeWhile)
  then show "until (sb_buf sbuff !
            (sb_p sbuff + length (until_prefix until (window sbuff outlen len)))) \<noteq> 0"
    using window_nth[OF assms(1) lt] by simp
qed

text \<open>
  C7, at instances: over \<^verbatim>\<open>"foo,bar"\<close>, copying until a comma and copying the
  letters f and o both give \<^verbatim>\<open>"foo"\<close>, return 3 and leave the position at the
  comma.
\<close>

theorem filtered_copy_contract_witness:
  "sbuff_valid (sbuff_over (bytes ''foo,bar'')) \<and>
   unat (8 :: size_t) \<le> length [1, 1, 1, 1, 1, 1, 1, 1 :: byte] \<and>
   fr_sbuff_strncpy_until [1, 1, 1, 1, 1, 1, 1, 1] 8 (sbuff_over (bytes ''foo,bar'')) SIZE_MAX
       (\<lambda>c. if c = 44 then 1 else 0) =
     (3, bytes ''foo'' @ [0, 1, 1, 1, 1], (sbuff_over (bytes ''foo,bar''))\<lparr>sb_p := 3\<rparr>) \<and>
   fr_sbuff_strncpy_allowed [1, 1, 1, 1, 1, 1, 1, 1] 8 (sbuff_over (bytes ''foo,bar'')) SIZE_MAX
       (\<lambda>c. if c = 102 \<or> c = 111 then 1 else 0) =
     (3, bytes ''foo'' @ [0, 1, 1, 1, 1], (sbuff_over (bytes ''foo,bar''))\<lparr>sb_p := 3\<rparr>) \<and>
   length (allowed_prefix (\<lambda>c. if c = 102 \<or> c = 111 then 1 else 0)
             (window (sbuff_over (bytes ''foo,bar'')) 8 SIZE_MAX)) <
     length (window (sbuff_over (bytes ''foo,bar'')) 8 SIZE_MAX) \<and>
   length (until_prefix (\<lambda>c. if c = 44 then 1 else 0)
             (window (sbuff_over (bytes ''foo,bar'')) 8 SIZE_MAX)) <
     length (window (sbuff_over (bytes ''foo,bar'')) 8 SIZE_MAX) \<and>
   (\<lambda>c. if c = 102 \<or> c = 111 then 1 else (0 :: byte))
     (sb_buf (sbuff_over (bytes ''foo,bar'')) !
       (sb_p (sbuff_over (bytes ''foo,bar'')) +
        length (allowed_prefix (\<lambda>c. if c = 102 \<or> c = 111 then 1 else 0)
                  (window (sbuff_over (bytes ''foo,bar'')) 8 SIZE_MAX)))) = 0 \<and>
   (\<lambda>c. if c = 44 then 1 else (0 :: byte))
     (sb_buf (sbuff_over (bytes ''foo,bar'')) !
       (sb_p (sbuff_over (bytes ''foo,bar'')) +
        length (until_prefix (\<lambda>c. if c = 44 then 1 else 0)
                  (window (sbuff_over (bytes ''foo,bar'')) 8 SIZE_MAX)))) \<noteq> 0 \<and>
   sb_buf (sbuff_over (bytes ''foo,bar'')) ! 3 = 44"
proof -
  have v: "sbuff_valid (sbuff_over (bytes ''foo,bar''))"
    by (simp add: valid_over bytes_def)
  have c8: "unat (8 :: size_t) \<le> length [1, 1, 1, 1, 1, 1, 1, 1 :: byte]" by simp
  note t = filtered_copy_contract[OF v c8, of SIZE_MAX "\<lambda>c. if c = 102 \<or> c = 111 then 1 else 0"
      "\<lambda>c. if c = 44 then 1 else 0"]
  have a: "fr_sbuff_strncpy_until [1, 1, 1, 1, 1, 1, 1, 1] 8 (sbuff_over (bytes ''foo,bar'')) SIZE_MAX
       (\<lambda>c. if c = 44 then 1 else 0) =
     (3, bytes ''foo'' @ [0, 1, 1, 1, 1], (sbuff_over (bytes ''foo,bar''))\<lparr>sb_p := 3\<rparr>)"
    using t by (simp add: example_eval)
  have b: "fr_sbuff_strncpy_allowed [1, 1, 1, 1, 1, 1, 1, 1] 8 (sbuff_over (bytes ''foo,bar'')) SIZE_MAX
       (\<lambda>c. if c = 102 \<or> c = 111 then 1 else 0) =
     (3, bytes ''foo'' @ [0, 1, 1, 1, 1], (sbuff_over (bytes ''foo,bar''))\<lparr>sb_p := 3\<rparr>)"
    using t by (simp add: example_eval)
  have la: "length (allowed_prefix (\<lambda>c. if c = 102 \<or> c = 111 then 1 else 0)
             (window (sbuff_over (bytes ''foo,bar'')) 8 SIZE_MAX)) <
     length (window (sbuff_over (bytes ''foo,bar'')) 8 SIZE_MAX)"
    by (simp add: example_eval)
  have lu: "length (until_prefix (\<lambda>c. if c = 44 then 1 else 0)
             (window (sbuff_over (bytes ''foo,bar'')) 8 SIZE_MAX)) <
     length (window (sbuff_over (bytes ''foo,bar'')) 8 SIZE_MAX)"
    by (simp add: example_eval)
  note sa = t[THEN conjunct2, THEN conjunct2, THEN conjunct2, THEN conjunct2, THEN conjunct1,
      THEN mp, OF la]
  note su = t[THEN conjunct2, THEN conjunct2, THEN conjunct2, THEN conjunct2, THEN conjunct2,
      THEN mp, OF lu]
  have c: "sb_buf (sbuff_over (bytes ''foo,bar'')) ! 3 = 44"
    by (simp add: sbuff_over_sel bytes_def)
  show ?thesis using v c8 a b la lu sa su c by (intro conjI)
qed

subsection \<open>C8: the search for a byte\<close>

text \<open>
  C8. \<^verbatim>\<open>fr_sbuff_strchr\<close> over a buffer on valid storage. If the byte occurs
  between the position and the end, the position moves to its first occurrence: the
  byte stands at the new position, at none of the bytes passed over, and the function
  returns the offset from the old position. If it does not occur, the buffer is
  unchanged and the function returns zero. The offset is zero as well when the byte
  stands at the position itself.
\<close>

theorem strchr_contract:
  assumes "sbuff_valid sbuff"
  shows "(c \<in> set (remaining sbuff) \<longrightarrow>
            (\<exists>k. fr_sbuff_strchr sbuff c = (of_nat k, sbuff\<lparr>sb_p := sb_p sbuff + k\<rparr>) \<and>
                 unat (of_nat k :: size_t) = k \<and>
                 sb_p sbuff + k < sb_end sbuff \<and>
                 sb_buf sbuff ! (sb_p sbuff + k) = c \<and>
                 (\<forall>j < k. sb_buf sbuff ! (sb_p sbuff + j) \<noteq> c))) \<and>
         (c \<notin> set (remaining sbuff) \<longrightarrow> fr_sbuff_strchr sbuff c = (0, sbuff))"
proof (intro conjI impI)
  assume mem: "c \<in> set (remaining sbuff)"
  define k where "k = length (takeWhile (\<lambda>x. x \<noteq> c) (remaining sbuff))"
  have klt: "k < length (remaining sbuff)"
    unfolding k_def using mem by (rule takeWhile_neq_less)
  have nth: "remaining sbuff ! k = c"
    unfolding k_def using mem by (rule takeWhile_neq_nth)
  have before: "\<And>j. j < k \<Longrightarrow> remaining sbuff ! j \<noteq> c"
    unfolding k_def by (rule takeWhile_neq_before)
  have len: "length (remaining sbuff) = sb_end sbuff - sb_p sbuff"
    using assms by (rule length_remaining)
  have small: "k < 2 ^ 64"
  proof -
    have "k < length (sb_buf sbuff)"
      using klt len assms by (auto simp: sbuff_valid_def)
    also have "\<dots> < 2 ^ 63" using assms by (simp add: sbuff_valid_def)
    also have "\<dots> < (2 ^ 64 :: nat)" by simp
    finally show ?thesis .
  qed
  have "fr_sbuff_strchr sbuff c = (of_nat k, sbuff\<lparr>sb_p := sb_p sbuff + k\<rparr>)"
    using assms mem by (simp add: strchr_eq k_def)
  moreover have "unat (of_nat k :: size_t) = k"
    using small by (simp add: unat_of_nat)
  moreover have "sb_p sbuff + k < sb_end sbuff"
    using klt len by simp
  moreover have "sb_buf sbuff ! (sb_p sbuff + k) = c"
    using nth klt len remaining_nth[OF assms, of k] by simp
  moreover have "\<forall>j < k. sb_buf sbuff ! (sb_p sbuff + j) \<noteq> c"
    using before klt len remaining_nth[OF assms] by simp
  ultimately show "\<exists>k. fr_sbuff_strchr sbuff c = (of_nat k, sbuff\<lparr>sb_p := sb_p sbuff + k\<rparr>) \<and>
                 unat (of_nat k :: size_t) = k \<and>
                 sb_p sbuff + k < sb_end sbuff \<and>
                 sb_buf sbuff ! (sb_p sbuff + k) = c \<and>
                 (\<forall>j < k. sb_buf sbuff ! (sb_p sbuff + j) \<noteq> c)" by blast
next
  assume "c \<notin> set (remaining sbuff)"
  then show "fr_sbuff_strchr sbuff c = (0, sbuff)"
    using assms by (simp add: strchr_eq)
qed

text \<open>
  C8, at instances: over \<^verbatim>\<open>"abcXdef"\<close> the search for X moves the position to
  offset 3 and returns 3; the search for a byte that does not occur returns 0 and
  leaves the buffer as it was.
\<close>

theorem strchr_contract_witness:
  "sbuff_valid (sbuff_over (bytes ''abcXdef'')) \<and>
   of_char CHR ''X'' \<in> set (remaining (sbuff_over (bytes ''abcXdef''))) \<and>
   of_char CHR ''/'' \<notin> set (remaining (sbuff_over (bytes ''abcXdef''))) \<and>
   fr_sbuff_strchr (sbuff_over (bytes ''abcXdef'')) (of_char CHR ''X'') =
     (3, (sbuff_over (bytes ''abcXdef''))\<lparr>sb_p := 3\<rparr>) \<and>
   fr_sbuff_strchr (sbuff_over (bytes ''abcXdef'')) (of_char CHR ''/'') =
     (0, sbuff_over (bytes ''abcXdef''))"
proof -
  have v: "sbuff_valid (sbuff_over (bytes ''abcXdef''))"
    by (simp add: valid_over bytes_def)
  have m: "of_char CHR ''X'' \<in> set (remaining (sbuff_over (bytes ''abcXdef'')))"
    by (simp add: remaining_def bytes_at_def sbuff_over_def bytes_def)
  have n: "of_char CHR ''/'' \<notin> set (remaining (sbuff_over (bytes ''abcXdef'')))"
    by (simp add: remaining_def bytes_at_def sbuff_over_def bytes_def)
  from strchr_contract[OF v, of "of_char CHR ''/''"] n
  have miss: "fr_sbuff_strchr (sbuff_over (bytes ''abcXdef'')) (of_char CHR ''/'') =
     (0, sbuff_over (bytes ''abcXdef''))" by blast
  have hit: "fr_sbuff_strchr (sbuff_over (bytes ''abcXdef'')) (of_char CHR ''X'') =
     (3, (sbuff_over (bytes ''abcXdef''))\<lparr>sb_p := 3\<rparr>)"
    by (simp add: fr_sbuff_strchr_def memchr_def ptr_diff_def bytes_at_def sbuff_over_def bytes_def)
  show ?thesis using v m n miss hit by blast
qed

subsection \<open>C9: no number\<close>

text \<open>
  C9. Whatever the staging size \<open>sz\<close>: when \<^verbatim>\<open>strtoll\<close> consumes nothing of the
  staging buffer, each of the four signed parse functions returns zero, writes
  \<^verbatim>\<open>FR_SBUFF_PARSE_ERROR_NOT_FOUND\<close> through the error pointer when there is one,
  and leaves the output and the buffer as they were; likewise the four unsigned
  functions when \<^verbatim>\<open>strtoull\<close> consumes nothing. Over a buffer on valid storage the
  staging buffer holds the first \<open>sz\<close> bytes after the position, up to a zero byte,
  and the C library's parsers consume nothing of it exactly when it has no digit after
  its white space and sign.
\<close>

theorem parse_not_found:
  "(fst (snd (strtoll (staged sz sbuff) errno)) = 0 \<longrightarrow>
      fr_sbuff_parse_int8_t sz errno err o8 sbuff =
        (0, set_err err FR_SBUFF_PARSE_ERROR_NOT_FOUND, o8, sbuff) \<and>
      fr_sbuff_parse_int16_t sz errno err o16 sbuff =
        (0, set_err err FR_SBUFF_PARSE_ERROR_NOT_FOUND, o16, sbuff) \<and>
      fr_sbuff_parse_int32_t sz errno err o32 sbuff =
        (0, set_err err FR_SBUFF_PARSE_ERROR_NOT_FOUND, o32, sbuff) \<and>
      fr_sbuff_parse_int64_t sz errno err o64 sbuff =
        (0, set_err err FR_SBUFF_PARSE_ERROR_NOT_FOUND, o64, sbuff)) \<and>
   (fst (snd (strtoull (staged sz sbuff) errno)) = 0 \<longrightarrow>
      fr_sbuff_parse_uint8_t sz errno err o8 sbuff =
        (0, set_err err FR_SBUFF_PARSE_ERROR_NOT_FOUND, o8, sbuff) \<and>
      fr_sbuff_parse_uint16_t sz errno err o16 sbuff =
        (0, set_err err FR_SBUFF_PARSE_ERROR_NOT_FOUND, o16, sbuff) \<and>
      fr_sbuff_parse_uint32_t sz errno err o32 sbuff =
        (0, set_err err FR_SBUFF_PARSE_ERROR_NOT_FOUND, o32, sbuff) \<and>
      fr_sbuff_parse_uint64_t sz errno err o64 sbuff =
        (0, set_err err FR_SBUFF_PARSE_ERROR_NOT_FOUND, o64, sbuff)) \<and>
   (sbuff_valid sbuff \<and> unat sz < 2 ^ 63 \<longrightarrow>
      staged sz sbuff = cstring (take (unat sz) (remaining sbuff)) \<and>
      (fst (snd (strtoll (staged sz sbuff) errno)) = 0) = no_number sz sbuff \<and>
      (fst (snd (strtoull (staged sz sbuff) errno)) = 0) = no_number sz sbuff)"
proof (intro conjI impI)
  assume z: "fst (snd (strtoll (staged sz sbuff) errno)) = 0"
  have s: "PARSE_INT_DEF sz min_v max_v errno err out sbuff =
             (0, set_err err FR_SBUFF_PARSE_ERROR_NOT_FOUND, out, sbuff)"
    for min_v max_v and out :: "'a::len word"
    using z by (cases "strtoll (staged sz sbuff) errno") (simp add: PARSE_INT_DEF_staged)
  show "fr_sbuff_parse_int8_t sz errno err o8 sbuff =
          (0, set_err err FR_SBUFF_PARSE_ERROR_NOT_FOUND, o8, sbuff)"
    unfolding fr_sbuff_parse_int8_t_def by (rule s)
  show "fr_sbuff_parse_int16_t sz errno err o16 sbuff =
          (0, set_err err FR_SBUFF_PARSE_ERROR_NOT_FOUND, o16, sbuff)"
    unfolding fr_sbuff_parse_int16_t_def by (rule s)
  show "fr_sbuff_parse_int32_t sz errno err o32 sbuff =
          (0, set_err err FR_SBUFF_PARSE_ERROR_NOT_FOUND, o32, sbuff)"
    unfolding fr_sbuff_parse_int32_t_def by (rule s)
  show "fr_sbuff_parse_int64_t sz errno err o64 sbuff =
          (0, set_err err FR_SBUFF_PARSE_ERROR_NOT_FOUND, o64, sbuff)"
    unfolding fr_sbuff_parse_int64_t_def by (rule s)
next
  assume z: "fst (snd (strtoull (staged sz sbuff) errno)) = 0"
  have u: "PARSE_UINT_DEF sz max_v errno err out sbuff =
             (0, set_err err FR_SBUFF_PARSE_ERROR_NOT_FOUND, out, sbuff)"
    for max_v and out :: "'a::len word"
    using z by (cases "strtoull (staged sz sbuff) errno") (simp add: PARSE_UINT_DEF_staged)
  show "fr_sbuff_parse_uint8_t sz errno err o8 sbuff =
          (0, set_err err FR_SBUFF_PARSE_ERROR_NOT_FOUND, o8, sbuff)"
    unfolding fr_sbuff_parse_uint8_t_def by (rule u)
  show "fr_sbuff_parse_uint16_t sz errno err o16 sbuff =
          (0, set_err err FR_SBUFF_PARSE_ERROR_NOT_FOUND, o16, sbuff)"
    unfolding fr_sbuff_parse_uint16_t_def by (rule u)
  show "fr_sbuff_parse_uint32_t sz errno err o32 sbuff =
          (0, set_err err FR_SBUFF_PARSE_ERROR_NOT_FOUND, o32, sbuff)"
    unfolding fr_sbuff_parse_uint32_t_def by (rule u)
  show "fr_sbuff_parse_uint64_t sz errno err o64 sbuff =
          (0, set_err err FR_SBUFF_PARSE_ERROR_NOT_FOUND, o64, sbuff)"
    unfolding fr_sbuff_parse_uint64_t_def by (rule u)
next
  assume v: "sbuff_valid sbuff \<and> unat sz < 2 ^ 63"
  then have e: "staged sz sbuff = cstring (take (unat sz) (remaining sbuff))"
    by (simp add: staged_eq)
  show "staged sz sbuff = cstring (take (unat sz) (remaining sbuff))" by (rule e)
  show "(fst (snd (strtoll (staged sz sbuff) errno)) = 0) = no_number sz sbuff"
    by (simp add: strtoll_consumed e no_number_def)
  show "(fst (snd (strtoull (staged sz sbuff) errno)) = 0) = no_number sz sbuff"
    by (simp add: strtoull_consumed e no_number_def)
qed

text \<open>
  C9, at instances: the buffer over \<^verbatim>\<open>"-x"\<close>, a sign and no digit, with and without
  an error pointer, at the staging sizes of the GNU C library for the 8-bit and the
  64-bit types: 7, 26, 6 and 25.
\<close>

theorem parse_not_found_witness:
  "sbuff_valid (sbuff_over (bytes ''-x'')) \<and>
   unat (sizeof_literal ''(-128)'') < 2 ^ 63 \<and>
   unat (sizeof_literal ''(-9223372036854775807L-1)'') < 2 ^ 63 \<and>
   unat (sizeof_literal ''(255)'') < 2 ^ 63 \<and>
   unat (sizeof_literal ''(18446744073709551615UL)'') < 2 ^ 63 \<and>
   no_number (sizeof_literal ''(-128)'') (sbuff_over (bytes ''-x'')) \<and>
   no_number (sizeof_literal ''(-9223372036854775807L-1)'') (sbuff_over (bytes ''-x'')) \<and>
   no_number (sizeof_literal ''(255)'') (sbuff_over (bytes ''-x'')) \<and>
   no_number (sizeof_literal ''(18446744073709551615UL)'') (sbuff_over (bytes ''-x'')) \<and>
   fst (snd (strtoll (staged (sizeof_literal ''(-128)'') (sbuff_over (bytes ''-x''))) 0)) = 0 \<and>
   fst (snd (strtoll (staged (sizeof_literal ''(-9223372036854775807L-1)'') (sbuff_over (bytes ''-x''))) 0)) = 0 \<and>
   fst (snd (strtoull (staged (sizeof_literal ''(255)'') (sbuff_over (bytes ''-x''))) 0)) = 0 \<and>
   fst (snd (strtoull (staged (sizeof_literal ''(18446744073709551615UL)'') (sbuff_over (bytes ''-x''))) 0)) = 0 \<and>
   fr_sbuff_parse_int8_t (sizeof_literal ''(-128)'') 0
       (Some FR_SBUFF_PARSE_ERROR_INTEGER_OVERFLOW) 7 (sbuff_over (bytes ''-x'')) =
     (0, Some FR_SBUFF_PARSE_ERROR_NOT_FOUND, 7, sbuff_over (bytes ''-x'')) \<and>
   fr_sbuff_parse_int64_t (sizeof_literal ''(-9223372036854775807L-1)'') 0
       (None) 7 (sbuff_over (bytes ''-x'')) =
     (0, None, 7, sbuff_over (bytes ''-x'')) \<and>
   fr_sbuff_parse_uint8_t (sizeof_literal ''(255)'') 0
       (Some FR_SBUFF_PARSE_ERROR_INTEGER_OVERFLOW) 7 (sbuff_over (bytes ''-x'')) =
     (0, Some FR_SBUFF_PARSE_ERROR_NOT_FOUND, 7, sbuff_over (bytes ''-x'')) \<and>
   fr_sbuff_parse_uint64_t (sizeof_literal ''(18446744073709551615UL)'') 0
       (None) 7 (sbuff_over (bytes ''-x'')) =
     (0, None, 7, sbuff_over (bytes ''-x''))"
proof -
  have v: "sbuff_valid (sbuff_over (bytes ''-x''))"
    by (simp add: valid_over bytes_def)
  have b_s8: "unat (sizeof_literal ''(-128)'') < 2 ^ 63"
    by (simp add: unat_sizeof_literal)
  have b_s64: "unat (sizeof_literal ''(-9223372036854775807L-1)'') < 2 ^ 63"
    by (simp add: unat_sizeof_literal)
  have b_u8: "unat (sizeof_literal ''(255)'') < 2 ^ 63"
    by (simp add: unat_sizeof_literal)
  have b_u64: "unat (sizeof_literal ''(18446744073709551615UL)'') < 2 ^ 63"
    by (simp add: unat_sizeof_literal)
  have n_s8: "no_number (sizeof_literal ''(-128)'') (sbuff_over (bytes ''-x''))"
    by (simp add: subject_eval)
  have n_s64: "no_number (sizeof_literal ''(-9223372036854775807L-1)'') (sbuff_over (bytes ''-x''))"
    by (simp add: subject_eval)
  have n_u8: "no_number (sizeof_literal ''(255)'') (sbuff_over (bytes ''-x''))"
    by (simp add: subject_eval)
  have n_u64: "no_number (sizeof_literal ''(18446744073709551615UL)'') (sbuff_over (bytes ''-x''))"
    by (simp add: subject_eval)
  note t_s8 = parse_not_found[of "sizeof_literal ''(-128)''" "sbuff_over (bytes ''-x'')" 0
      "Some FR_SBUFF_PARSE_ERROR_INTEGER_OVERFLOW" 7 7 7 7]
  note t_s64 = parse_not_found[of "sizeof_literal ''(-9223372036854775807L-1)''" "sbuff_over (bytes ''-x'')" 0
      "None" 7 7 7 7]
  note t_u8 = parse_not_found[of "sizeof_literal ''(255)''" "sbuff_over (bytes ''-x'')" 0
      "Some FR_SBUFF_PARSE_ERROR_INTEGER_OVERFLOW" 7 7 7 7]
  note t_u64 = parse_not_found[of "sizeof_literal ''(18446744073709551615UL)''" "sbuff_over (bytes ''-x'')" 0
      "None" 7 7 7 7]
  have z_s8: "fst (snd (strtoll (staged (sizeof_literal ''(-128)'') (sbuff_over (bytes ''-x''))) 0)) = 0"
    using t_s8 v b_s8 n_s8 by blast
  have z_s64: "fst (snd (strtoll (staged (sizeof_literal ''(-9223372036854775807L-1)'') (sbuff_over (bytes ''-x''))) 0)) = 0"
    using t_s64 v b_s64 n_s64 by blast
  have z_u8: "fst (snd (strtoull (staged (sizeof_literal ''(255)'') (sbuff_over (bytes ''-x''))) 0)) = 0"
    using t_u8 v b_u8 n_u8 by blast
  have z_u64: "fst (snd (strtoull (staged (sizeof_literal ''(18446744073709551615UL)'') (sbuff_over (bytes ''-x''))) 0)) = 0"
    using t_u64 v b_u64 n_u64 by blast
  have r_s8: "fr_sbuff_parse_int8_t (sizeof_literal ''(-128)'') 0
       (Some FR_SBUFF_PARSE_ERROR_INTEGER_OVERFLOW) 7 (sbuff_over (bytes ''-x'')) =
     (0, Some FR_SBUFF_PARSE_ERROR_NOT_FOUND, 7, sbuff_over (bytes ''-x''))"
    using t_s8 z_s8 by (simp add: set_err_def)
  have r_s64: "fr_sbuff_parse_int64_t (sizeof_literal ''(-9223372036854775807L-1)'') 0
       (None) 7 (sbuff_over (bytes ''-x'')) =
     (0, None, 7, sbuff_over (bytes ''-x''))"
    using t_s64 z_s64 by (simp add: set_err_def)
  have r_u8: "fr_sbuff_parse_uint8_t (sizeof_literal ''(255)'') 0
       (Some FR_SBUFF_PARSE_ERROR_INTEGER_OVERFLOW) 7 (sbuff_over (bytes ''-x'')) =
     (0, Some FR_SBUFF_PARSE_ERROR_NOT_FOUND, 7, sbuff_over (bytes ''-x''))"
    using t_u8 z_u8 by (simp add: set_err_def)
  have r_u64: "fr_sbuff_parse_uint64_t (sizeof_literal ''(18446744073709551615UL)'') 0
       (None) 7 (sbuff_over (bytes ''-x'')) =
     (0, None, 7, sbuff_over (bytes ''-x''))"
    using t_u64 z_u64 by (simp add: set_err_def)
  show ?thesis using v b_s8 b_s64 b_u8 b_u64 n_s8 n_s64 n_u8 n_u64 z_s8 z_s64 z_u8 z_u64 r_s8 r_s64 r_u8 r_u64 by (intro conjI)
qed

subsection \<open>C10: a minus sign before an unsigned number\<close>

text \<open>
  C10. \<^verbatim>\<open>fr_sbuff_parse_uint64_t\<close> over \<^verbatim>\<open>"-1,"\<close> consumes two bytes and
  stores \<open>2\<^sup>6\<^sup>4 - 1\<close>. The function does not clear \<^verbatim>\<open>errno\<close>: when
  \<^verbatim>\<open>errno\<close> is \<^verbatim>\<open>EINVAL\<close> on entry, its test of \<^verbatim>\<open>errno\<close> holds and it
  reports \<^verbatim>\<open>FR_SBUFF_PARSE_ERROR_INTEGER_OVERFLOW\<close>, whatever the staging size is,
  as long as it holds the two characters. For every other value of \<^verbatim>\<open>errno\<close> on
  entry it reports no error, as shown above.
\<close>

theorem parse_uint64_minus_one_stale_errno:
  assumes "2 \<le> unat sz" and "unat sz < 2 ^ 63"
  shows "fr_sbuff_parse_uint64_t sz EINVAL (Some FR_SBUFF_PARSE_ERROR_NOT_FOUND) 0
           (sbuff_over (bytes ''-1,'')) =
         (2, Some FR_SBUFF_PARSE_ERROR_INTEGER_OVERFLOW, 18446744073709551615,
          sbuff_over (bytes ''-1,''))"
proof -
  have v: "sbuff_valid (sbuff_over (bytes ''-1,''))"
    by (simp add: valid_over bytes_def)
  have r: "remaining (sbuff_over (bytes ''-1,'')) = 45 # 49 # [44]"
    by (simp add: remaining_over bytes_def)
  have d: "[44 :: byte] = [] \<or> \<not> isdigit (hd [44])"
    by (simp add: isdigit_def)
  show ?thesis
    using parse_uint64_minus_one_stale[OF v r d assms, of "Some FR_SBUFF_PARSE_ERROR_NOT_FOUND" 0]
    by (simp add: set_err_def)
qed

text \<open>
  C10, at the staging size of the GNU C library, 25.
\<close>

theorem parse_uint64_minus_one_stale_errno_witness:
  "2 \<le> unat (sizeof_literal ''(18446744073709551615UL)'') \<and>
   unat (sizeof_literal ''(18446744073709551615UL)'') < 2 ^ 63 \<and>
   fr_sbuff_parse_uint64_t (sizeof_literal ''(18446744073709551615UL)'') EINVAL
       (Some FR_SBUFF_PARSE_ERROR_NOT_FOUND) 0 (sbuff_over (bytes ''-1,'')) =
     (2, Some FR_SBUFF_PARSE_ERROR_INTEGER_OVERFLOW, 18446744073709551615,
      sbuff_over (bytes ''-1,''))"
proof -
  have u: "2 \<le> unat (sizeof_literal ''(18446744073709551615UL)'')"
      "unat (sizeof_literal ''(18446744073709551615UL)'') < 2 ^ 63"
    by (simp_all add: unat_sizeof_literal)
  show ?thesis
    using u parse_uint64_minus_one_stale_errno[OF u] by (intro conjI)
qed

end
